theory Spec2Isabelle
  imports Main "HOL-Library.Sublist"
begin

section \<open>The cache monitor of evm-cache (src/monitor/CacheMonitor.js)\<close>

text \<open>
  The monitor is callback-driven JavaScript over two collaborators: a node client
  (\<^verbatim>\<open>evmClient\<close>) and one database session (\<^verbatim>\<open>this.Client\<close>). The embedding makes
  both explicit:
  \<^item> the database is a value of an arbitrary type \<open>'d\<close>, and \<^verbatim>\<open>Client.query\<close> is a
    parameter \<open>Q\<close> that maps a query and a database to the driver's result object and
    the database afterwards (the SQL templates of BlockQueries.js and
    TransactionQueries.js are not part of the sources);
  \<^item> what the node answers is a parameter too: the deliveries the client makes to the
    callback of \<^verbatim>\<open>getBlock\<close>, and a function from transaction hashes to the outcome
    of \<^verbatim>\<open>getTransactionReceipt\<close>;
  \<^item> every other effect (logging, sleeping, \<^verbatim>\<open>cycleNodes\<close>, \<^verbatim>\<open>Client.release\<close>, a call
    of \<^verbatim>\<open>this.mainLoop\<close>, a request sent to the node) is an event of the trace a
    function returns, in program order;
  \<^item> the tasks of one block run concurrently: the order in which they and the handler of
    \<^verbatim>\<open>catch\<close> go on after an \<^verbatim>\<open>await\<close> is a parameter \<open>S\<close>;
  \<^item> \<^verbatim>\<open>process.exit\<close> and an uncaught exception end a computation: they are the
    completions \<open>Exited\<close> and \<open>Rejected\<close>.
\<close>

subsection \<open>Strings: \<^verbatim>\<open>indexOf\<close> and \<^verbatim>\<open>toUpperCase\<close>\<close>

text \<open>
  \<^verbatim>\<open>s.indexOf(p)\<close>: the first position at which \<open>p\<close> occurs in \<open>s\<close>, or \<open>-1\<close>.
  Error texts are taken as ASCII strings.
\<close>

fun indexOf_from :: "string \<Rightarrow> string \<Rightarrow> int \<Rightarrow> int" where
  "indexOf_from [] p i = (if p = [] then i else -1)"
| "indexOf_from (c # cs) p i = (if prefix p (c # cs) then i else indexOf_from cs p (i + 1))"

definition indexOf :: "string \<Rightarrow> string \<Rightarrow> int" where
  "indexOf s p = indexOf_from s p 0"

definition toUpperCase_char :: "char \<Rightarrow> char" where
  "toUpperCase_char c =
     (let k = (of_char c :: nat) in if 97 \<le> k \<and> k \<le> 122 then char_of (k - 32) else c)"

definition toUpperCase :: "string \<Rightarrow> string" where
  "toUpperCase s = map toUpperCase_char s"

text \<open>
  The test of \<^verbatim>\<open>getBlock\<close>'s error branch (lines 149-152), on \<^verbatim>\<open>String(err)\<close>:
  \<^verbatim>\<open>String(err).indexOf('Invalid JSON RPC response') !== -1 ||
  String(err).toUpperCase().indexOf('CONNECTION TIMEOUT') !== -1\<close>
\<close>

definition node_is_down :: "string \<Rightarrow> bool" where
  "node_is_down err \<longleftrightarrow>
     indexOf err ''Invalid JSON RPC response'' \<noteq> -1 \<or>
     indexOf (toUpperCase err) ''CONNECTION TIMEOUT'' \<noteq> -1"

subsection \<open>Data of the node\<close>

type_synonym hash = string

text \<open>
  A transaction object of \<^verbatim>\<open>block.transactions\<close>: its hash, and the fields that are
  only handed on to the insert (nonce, transactionIndex, from, to, value, gasPrice, gas,
  input, v, r, s), kept together.
\<close>

record transaction =
  tx_hash :: hash
  tx_fields :: "string list"

record log_entry =
  blockNumber :: int
  logIndex :: nat
  address :: string
  data :: string
  topics :: "string list"

text \<open>A receipt; \<^verbatim>\<open>receipt.logs\<close> may be absent.\<close>

record receipt =
  status :: bool
  contractAddress :: "string option"
  logs :: "log_entry list option"

text \<open>
  What \<^verbatim>\<open>await evmClient.getTransactionReceipt(hash)\<close> gives: the promise rejects, or
  it resolves to null or to a receipt.
\<close>

datatype receipt_response = ReceiptRejected string | ReceiptNull | ReceiptOf receipt

text \<open>
  A block as the node returns it. \<open>number\<close> is the block's own field
  (\<^verbatim>\<open>block.number\<close>), which the code keeps apart from the height it asked for
  (\<^verbatim>\<open>block_number\<close>). The header fields that are only handed on to the insert
  (parentHash, nonce, gasLimit, gasUsed, timestamp, sha3Uncles, logsBloom,
  transactionsRoot, receiptsRoot, stateRoot, mixHash, miner, difficulty, extraData,
  size) are kept together. \<^verbatim>\<open>block.uncles\<close> may be absent.
\<close>

record block =
  number :: int
  hash :: hash
  header_fields :: "string list"
  transactions :: "transaction list"
  uncles :: "hash list option"

text \<open>
  One call of the callback of \<^verbatim>\<open>evmClient.getBlock\<close>: \<open>err\<close> is \<open>None\<close> for a falsy
  \<^verbatim>\<open>err\<close> and \<open>Some s\<close> for a truthy one with \<^verbatim>\<open>String(err) = s\<close>; \<open>fetched\<close> is
  \<open>None\<close> for a falsy \<^verbatim>\<open>block\<close>.
\<close>

record delivery =
  err :: "string option"
  fetched :: "block option"

subsection \<open>The database session\<close>

text \<open>
  The queries the monitor sends, named as the static methods that build them
  (BlockQueries, TransactionQueries) and carrying the arguments the monitor passes.
\<close>

datatype query =
    getLatestBlock nat
  | getBlockByHash nat hash
  | getBlockTransactionCount nat int
  | addBlock nat int hash "string list"
  | deleteBlock nat int
  | deleteOmmers nat int
  | addOmmer nat hash hash
  | deleteLogs nat int
  | deleteTransactions nat int
  | addTransaction hash transaction "bool option" "string option"
  | deleteLogsByTransactionHash hash
  | addLog hash log_entry
  | BEGIN
  | COMMIT
  | ROLLBACK

text \<open>
  The driver's result object. A row is represented by the integer the monitor reads
  from it: \<^verbatim>\<open>parseInt(row.number, 10)\<close>, \<^verbatim>\<open>parseInt(row.transaction_count, 10)\<close>,
  \<^verbatim>\<open>parseInt(row.count, 10)\<close> or \<^verbatim>\<open>row.log_id\<close>. A query may also come back with no
  result object at all (\<open>None\<close>).
\<close>

record qresult =
  rowCount :: nat
  rows :: "int list"

type_synonym 'd driver = "query \<Rightarrow> 'd \<Rightarrow> qresult option \<times> 'd"

text \<open>The test \<^verbatim>\<open>!result || !result.rowCount\<close>.\<close>

definition no_rows :: "qresult option \<Rightarrow> bool" where
  "no_rows result = (case result of None \<Rightarrow> True | Some r \<Rightarrow> rowCount r = 0)"

subsection \<open>Effects and completions\<close>

text \<open>
  The handlers a caller of \<^verbatim>\<open>getBlock\<close> passes: which properties the \<^verbatim>\<open>callbacks\<close>
  object has. Each name has one handler body in the source.
\<close>

record callbacks =
  has_atBlockchainHead :: bool
  has_blockAlreadyExists :: bool
  has_moveToNextBlock :: bool
  has_foundDuringReviewBlock :: bool

datatype loglevel = INFO | ERROR

datatype event =
    Log loglevel string
  | Sleep nat
  | CycleNodes
  | Release
  | Sql query
  | NodeGetBlock int callbacks
  | NodeGetTransactionReceipt hash
  | SetDecodedLog int log_entry
  | MainLoop int

text \<open>
  How a computation ends: it returns, the process exits with a status, or an exception
  is thrown (an async function's promise rejects) with a message.
\<close>

datatype completion = Returned | Exited nat | Rejected string

type_synonym 'd run = "completion \<times> 'd \<times> event list"

text \<open>The events \<open>evs\<close> happened before the run \<open>r\<close>.\<close>

fun after :: "event list \<Rightarrow> 'd run \<Rightarrow> 'd run" where
  "after evs (c, d, evs') = (c, d, evs @ evs')"

text \<open>Sequencing: the second computation runs only if the first returned.\<close>

fun and_then :: "'d run \<Rightarrow> ('d \<Rightarrow> 'd run) \<Rightarrow> 'd run" where
  "and_then (Returned, d, evs) f = after evs (f d)"
| "and_then (c, d, evs) f = (c, d, evs)"

text \<open>\<^verbatim>\<open>await this.Client.query(q)\<close> with the result dropped.\<close>

definition run_query :: "'d driver \<Rightarrow> query \<Rightarrow> 'd \<Rightarrow> 'd run" where
  "run_query Q q d = (Returned, snd (Q q d), [Sql q])"

subsection \<open>The monitor object\<close>

record monitor =
  blockchain_id :: nat
  startBlockOverride :: "int option"
  endBlockOverride :: "int option"
  reviewBlockLimit :: int
  comprehensiveReviewBlockLimit :: int
  comprehensiveReviewCounter :: nat
  comprehensiveReviewCountMod :: nat

text \<open>
  The constructor (lines 12-25). An override that is \<^verbatim>\<open>false\<close> in the options is
  \<open>None\<close>.
\<close>

definition CacheMonitor :: "nat \<Rightarrow> int option \<Rightarrow> int option \<Rightarrow> monitor" where
  "CacheMonitor bid start_override end_override =
     \<lparr> blockchain_id = bid,
       startBlockOverride = start_override,
       endBlockOverride = end_override,
       reviewBlockLimit = 15,
       comprehensiveReviewBlockLimit = 100,
       comprehensiveReviewCounter = 0,
       comprehensiveReviewCountMod = 250 \<rparr>"

text \<open>The three \<^verbatim>\<open>callbacks\<close> objects the source builds (lines 92-139, 105, 116-120).\<close>

definition mainLoop_callbacks :: callbacks where
  "mainLoop_callbacks =
     \<lparr> has_atBlockchainHead = True, has_blockAlreadyExists = True,
       has_moveToNextBlock = True, has_foundDuringReviewBlock = False \<rparr>"

definition comprehensive_review_callbacks :: callbacks where
  "comprehensive_review_callbacks =
     \<lparr> has_atBlockchainHead = False, has_blockAlreadyExists = False,
       has_moveToNextBlock = False, has_foundDuringReviewBlock = False \<rparr>"

definition review_callbacks :: callbacks where
  "review_callbacks =
     \<lparr> has_atBlockchainHead = False, has_blockAlreadyExists = False,
       has_moveToNextBlock = False, has_foundDuringReviewBlock = True \<rparr>"

subsection \<open>The cursor loop: \<^verbatim>\<open>mainLoop\<close>\<close>

text \<open>
  \<^verbatim>\<open>mainLoop(block_number)\<close> (lines 86-140) up to the point where it has handed the
  request to the node client: the event \<open>MainLoop n\<close> marks the entry with cursor
  \<open>n\<close>, \<open>NodeGetBlock n cbs\<close> the call \<^verbatim>\<open>evmClient.getBlock(n, ...)\<close> made by
  \<^verbatim>\<open>getBlock(n, cbs)\<close>. What the node delivers later is handled by
  \<open>getBlock_callback\<close>.
\<close>

definition mainLoop :: "monitor \<Rightarrow> int \<Rightarrow> 'd \<Rightarrow> 'd run" where
  "mainLoop m block_number d =
     (case endBlockOverride m of
        None \<Rightarrow> (Returned, d, [MainLoop block_number, NodeGetBlock block_number mainLoop_callbacks])
      | Some e \<Rightarrow>
          if block_number \<ge> e
          then (Exited 0, d, [MainLoop block_number, Log INFO ''Reached endBlockOverride:''])
          else (Returned, d, [MainLoop block_number, NodeGetBlock block_number mainLoop_callbacks]))"

text \<open>
  The two \<^verbatim>\<open>for\<close> loops of the review (lines 100-106 and 111-121):
  \<^verbatim>\<open>for (p = start; p < block_number - 1; p++) this.getBlock.call(this, p, cbs)\<close>.
\<close>

function review_loop :: "callbacks \<Rightarrow> int \<Rightarrow> int \<Rightarrow> event list" where
  "review_loop cbs prior_block_number block_number =
     (if prior_block_number < block_number - 1
      then NodeGetBlock prior_block_number cbs # review_loop cbs (prior_block_number + 1) block_number
      else [])"
  by pat_completeness auto
termination
  by (relation "measure (\<lambda>(cbs, p, n). nat (n - 1 - p))") auto

declare review_loop.simps [simp del]

text \<open>The handler \<^verbatim>\<open>atBlockchainHead\<close> (lines 93-129).\<close>

definition atBlockchainHead :: "monitor \<Rightarrow> int \<Rightarrow> 'd \<Rightarrow> monitor \<times> 'd run" where
  "atBlockchainHead m block_number d =
     (let m' = m\<lparr>comprehensiveReviewCounter := comprehensiveReviewCounter m + 1\<rparr> in
      if comprehensiveReviewCounter m' mod comprehensiveReviewCountMod m' = 0
      then (m', after
             (Log INFO ''Performing a comprehensive review of the last blocks.''
              # review_loop comprehensive_review_callbacks
                  (block_number - comprehensiveReviewBlockLimit m') block_number
              @ [Sleep 15000])
             (mainLoop m' block_number d))
      else (m', after
             (review_loop review_callbacks (block_number - reviewBlockLimit m') block_number
              @ [Sleep 2500])
             (mainLoop m' block_number d)))"

text \<open>The handlers \<^verbatim>\<open>blockAlreadyExists\<close> (lines 130-134) and \<^verbatim>\<open>moveToNextBlock\<close> (135-138).\<close>

definition blockAlreadyExists :: "monitor \<Rightarrow> int \<Rightarrow> 'd \<Rightarrow> 'd run" where
  "blockAlreadyExists m block_number d =
     after [Log INFO ''Block with hash found, skipping.''] (mainLoop m (block_number + 1) d)"

definition moveToNextBlock :: "monitor \<Rightarrow> int \<Rightarrow> 'd \<Rightarrow> 'd run" where
  "moveToNextBlock m block_number d = mainLoop m (block_number + 1) d"

subsection \<open>The persister: \<^verbatim>\<open>addOmmers\<close> and \<^verbatim>\<open>getTransaction\<close>\<close>

text \<open>\<^verbatim>\<open>addOmmers\<close> (lines 334-348): one insert per ommer, in order.\<close>

fun addOmmers :: "'d driver \<Rightarrow> monitor \<Rightarrow> hash \<Rightarrow> hash list \<Rightarrow> 'd \<Rightarrow> 'd run" where
  "addOmmers Q m nibling_block_hash [] d = (Returned, d, [])"
| "addOmmers Q m nibling_block_hash (ommer # ommers) d =
     and_then (run_query Q (addOmmer (blockchain_id m) ommer nibling_block_hash) d)
       (addOmmers Q m nibling_block_hash ommers)"

text \<open>
  The loop over \<^verbatim>\<open>receipt.logs\<close> (lines 411-427). A log insert that comes back without
  a row is logged and the loop goes on (\<^verbatim>\<open>continue\<close>); otherwise the decoder is called
  with \<^verbatim>\<open>logResult.rows[0].log_id\<close>, which throws a TypeError when \<^verbatim>\<open>rows\<close> is empty.
\<close>

fun getTransaction_logs :: "'d driver \<Rightarrow> hash \<Rightarrow> log_entry list \<Rightarrow> 'd \<Rightarrow> 'd run" where
  "getTransaction_logs Q h [] d = (Returned, d, [])"
| "getTransaction_logs Q h (l # ls) d =
     (case Q (addLog h l) d of (logResult, d1) \<Rightarrow>
        if no_rows logResult
        then after [Sql (addLog h l), Log ERROR ''** Could not store log''] (getTransaction_logs Q h ls d1)
        else (case logResult of
                None \<Rightarrow> (Rejected ''TypeError'', d1, [Sql (addLog h l)])
              | Some r \<Rightarrow>
                  (case rows r of
                     [] \<Rightarrow> (Rejected ''TypeError'', d1, [Sql (addLog h l)])
                   | log_id # _ \<Rightarrow>
                       after [Sql (addLog h l), SetDecodedLog log_id l]
                         (getTransaction_logs Q h ls d1))))"

text \<open>\<^verbatim>\<open>receipt.status || null\<close> and \<^verbatim>\<open>receipt.contractAddress || null\<close>.\<close>

definition status_or_null :: "bool \<Rightarrow> bool option" where
  "status_or_null s = (if s then Some True else None)"

definition address_or_null :: "string option \<Rightarrow> string option" where
  "address_or_null a = (case a of None \<Rightarrow> None | Some s \<Rightarrow> if s = [] then None else Some s)"

text \<open>
  \<^verbatim>\<open>getTransaction\<close> (lines 350-428), as one call runs from the database \<open>d\<close> when
  nothing else uses the session in between. \<open>R\<close> is what the node answers to
  \<^verbatim>\<open>getTransactionReceipt\<close> for each transaction hash.
\<close>

definition getTransaction ::
  "'d driver \<Rightarrow> (hash \<Rightarrow> receipt_response) \<Rightarrow> hash \<Rightarrow> transaction \<Rightarrow> 'd \<Rightarrow> 'd run" where
  "getTransaction Q R block_hash t d =
     after [NodeGetTransactionReceipt (tx_hash t)]
     (case R (tx_hash t) of
        ReceiptRejected e \<Rightarrow> (Rejected e, d, [])
      | ReceiptNull \<Rightarrow> (Returned, d, [Log INFO ''Transaction receipt not found for block.''])
      | ReceiptOf rc \<Rightarrow>
          (let q = addTransaction block_hash t (status_or_null (status rc))
                     (address_or_null (contractAddress rc))
           in case Q q d of (result, d1) \<Rightarrow>
             after [Sql q]
             (if no_rows result
              then (Exited 1, d1,
                    [Release, Log ERROR ''No result returned for'', Log ERROR ''transaction'',
                     Log ERROR ''^^ No result returned in block ^^''])
              else (case logs rc of
                      None \<Rightarrow> (Returned, d1, [])
                    | Some ls \<Rightarrow>
                        if ls = [] then (Returned, d1, [])
                        else and_then (run_query Q (deleteLogsByTransactionHash (tx_hash t)) d1)
                               (getTransaction_logs Q (tx_hash t) ls)))))"

subsection \<open>The tasks of one block: \<^verbatim>\<open>Promise.all\<close> and \<^verbatim>\<open>storeBlockAssocData\<close>\<close>

text \<open>
  \<^verbatim>\<open>storeBlockAssocData\<close> starts every task before it joins them (lines 293-297): each
  call of \<^verbatim>\<open>getTransaction\<close> runs up to its first \<^verbatim>\<open>await\<close>, so every receipt is requested
  before any task goes on. From there the tasks take turns: at an \<^verbatim>\<open>await\<close> a task hands
  control back, and it goes on when what it waits for has settled. A task between two
  turns is what it waits for:
  \<^item> \<open>AwaitReceipt\<close>: the receipt (line 351);
  \<^item> \<open>AwaitInsert\<close>: the transaction insert (line 372), with the receipt in hand;
  \<^item> \<open>AwaitDeleteLogs\<close>: the deletion of the transaction's logs (line 408), with the logs
    to insert;
  \<^item> \<open>AwaitLog\<close>: the insert of one log (line 412), with the logs still to come;
  \<^item> \<open>AwaitDecoder\<close>: the decoder called for a stored log (line 426).

  All queries go over the one session, which runs them in the order in which they are
  issued. So a query runs on the database when the task issues it, and the task keeps
  the result until its next turn.
\<close>

datatype task =
    AwaitReceipt transaction
  | AwaitInsert transaction receipt "qresult option"
  | AwaitDeleteLogs transaction "log_entry list"
  | AwaitLog transaction log_entry "log_entry list" "qresult option"
  | AwaitDecoder transaction "log_entry list"

text \<open>
  What a turn of a task ends with: the next \<^verbatim>\<open>await\<close>, the end of the function (its
  promise resolves), an exception (its promise rejects), or \<^verbatim>\<open>process.exit\<close>.
\<close>

datatype resumed = Awaits task | Resolves | Rejects string | ExitsProcess nat

text \<open>
  The head of the loop over the logs (lines 411-419): the insert of the next log is
  issued, or the loop and with it the task are done.
\<close>

definition next_log ::
  "'d driver \<Rightarrow> transaction \<Rightarrow> log_entry list \<Rightarrow> 'd \<Rightarrow> resumed \<times> 'd \<times> event list" where
  "next_log Q t ls d =
     (case ls of
        [] \<Rightarrow> (Resolves, d, [])
      | l # ls' \<Rightarrow>
          (case Q (addLog (tx_hash t) l) d of (logResult, d1) \<Rightarrow>
             (Awaits (AwaitLog t l ls' logResult), d1, [Sql (addLog (tx_hash t) l)])))"

text \<open>One turn of a task of \<^verbatim>\<open>getTransaction\<close> (lines 351-428), from the database \<open>d\<close>.\<close>

fun resume ::
  "'d driver \<Rightarrow> (hash \<Rightarrow> receipt_response) \<Rightarrow> hash \<Rightarrow> task \<Rightarrow> 'd \<Rightarrow> resumed \<times> 'd \<times> event list" where
  "resume Q R block_hash (AwaitReceipt t) d =
     (case R (tx_hash t) of
        ReceiptRejected e \<Rightarrow> (Rejects e, d, [])
      | ReceiptNull \<Rightarrow> (Resolves, d, [Log INFO ''Transaction receipt not found for block.''])
      | ReceiptOf rc \<Rightarrow>
          (let q = addTransaction block_hash t (status_or_null (status rc))
                     (address_or_null (contractAddress rc))
           in case Q q d of (result, d1) \<Rightarrow> (Awaits (AwaitInsert t rc result), d1, [Sql q])))"
| "resume Q R block_hash (AwaitInsert t rc result) d =
     (if no_rows result
      then (ExitsProcess 1, d,
            [Release, Log ERROR ''No result returned for'', Log ERROR ''transaction'',
             Log ERROR ''^^ No result returned in block ^^''])
      else (case logs rc of
              None \<Rightarrow> (Resolves, d, [])
            | Some ls \<Rightarrow>
                if ls = [] then (Resolves, d, [])
                else (Awaits (AwaitDeleteLogs t ls),
                      snd (Q (deleteLogsByTransactionHash (tx_hash t)) d),
                      [Sql (deleteLogsByTransactionHash (tx_hash t))])))"
| "resume Q R block_hash (AwaitDeleteLogs t ls) d = next_log Q t ls d"
| "resume Q R block_hash (AwaitLog t l ls logResult) d =
     (if no_rows logResult
      then (case next_log Q t ls d of
              (r, d1, evs) \<Rightarrow> (r, d1, Log ERROR ''** Could not store log'' # evs))
      else (case logResult of
              None \<Rightarrow> (Rejects ''TypeError'', d, [])
            | Some r \<Rightarrow>
                (case rows r of
                   [] \<Rightarrow> (Rejects ''TypeError'', d, [])
                 | log_id # _ \<Rightarrow> (Awaits (AwaitDecoder t ls), d, [SetDecodedLog log_id l]))))"
| "resume Q R block_hash (AwaitDecoder t ls) d = next_log Q t ls d"

text \<open>A bound on the turns a task has left.\<close>

fun turns_left :: "(hash \<Rightarrow> receipt_response) \<Rightarrow> task \<Rightarrow> nat" where
  "turns_left R (AwaitReceipt t) =
     (case R (tx_hash t) of
        ReceiptOf rc \<Rightarrow> 2 * length (case logs rc of None \<Rightarrow> [] | Some ls \<Rightarrow> ls) + 4
      | _ \<Rightarrow> 1)"
| "turns_left R (AwaitInsert t rc result) =
     2 * length (case logs rc of None \<Rightarrow> [] | Some ls \<Rightarrow> ls) + 3"
| "turns_left R (AwaitDeleteLogs t ls) = 2 * length ls + 2"
| "turns_left R (AwaitLog t l ls logResult) = 2 * length ls + 2"
| "turns_left R (AwaitDecoder t ls) = 2 * length ls + 1"

text \<open>A task that takes all its remaining turns with nothing in between.\<close>

function finish ::
  "'d driver \<Rightarrow> (hash \<Rightarrow> receipt_response) \<Rightarrow> hash \<Rightarrow> task \<Rightarrow> 'd \<Rightarrow> 'd run" where
  "finish Q R block_hash tk d =
     (case resume Q R block_hash tk d of
        (Awaits tk', d1, evs) \<Rightarrow> after evs (finish Q R block_hash tk' d1)
      | (Resolves, d1, evs) \<Rightarrow> (Returned, d1, evs)
      | (Rejects e, d1, evs) \<Rightarrow> (Rejected e, d1, evs)
      | (ExitsProcess k, d1, evs) \<Rightarrow> (Exited k, d1, evs))"
  by pat_completeness auto
termination
proof (relation "measure (\<lambda>(Q, R, block_hash, tk, d). turns_left R tk)")
  show "wf (measure (\<lambda>(Q, R, block_hash, tk, d). turns_left R tk))"
    by simp
next
  fix Q :: "'d driver" and R block_hash tk d x y tk' d1 evs
  assume "(x, y) = resume Q R block_hash tk d" and "x = Awaits tk'" and "(d1, evs) = y"
  then have "resume Q R block_hash tk d = (Awaits tk', d1, evs)"
    by simp
  then have "turns_left R tk' < turns_left R tk"
    by (cases tk)
       (auto simp: next_log_def Let_def
          split: receipt_response.splits prod.splits option.splits list.splits if_splits)
  then show "((Q, R, block_hash, tk', d1), (Q, R, block_hash, tk, d))
               \<in> measure (\<lambda>(Q, R, block_hash, tk, d). turns_left R tk)"
    by simp
qed

declare finish.simps [simp del]

text \<open>
  The handler of \<^verbatim>\<open>catch\<close> (lines 306-330) is called when the joined promise rejects,
  that is at the first task that rejects; later rejections are not looked at. It has
  turns of its own: it issues \<^verbatim>\<open>ROLLBACK\<close> and waits for it, starts the sleep of 1000 ms
  and waits for it, then logs twice and exits. Nothing stops the other tasks in between.
\<close>

datatype catch_handler = NotCalled | Called | AwaitRollback | Sleeping

text \<open>The handler taking all its remaining turns with nothing in between.\<close>

definition finish_catch :: "'d driver \<Rightarrow> catch_handler \<Rightarrow> 'd \<Rightarrow> 'd run" where
  "finish_catch Q h d =
     (case h of
        NotCalled \<Rightarrow> (Returned, d, [])
      | Called \<Rightarrow>
          (Exited 1, snd (Q ROLLBACK d),
           [Sql ROLLBACK, Sleep 1000, Log ERROR ''Promises failed for retrieving all block data'',
            Log ERROR ''Error:''])
      | AwaitRollback \<Rightarrow>
          (Exited 1, d,
           [Sleep 1000, Log ERROR ''Promises failed for retrieving all block data'',
            Log ERROR ''Error:''])
      | Sleeping \<Rightarrow>
          (Exited 1, d,
           [Log ERROR ''Promises failed for retrieving all block data'', Log ERROR ''Error:'']))"

text \<open>
  The order in which the tasks and the handler take their turns is not in the program:
  it is the order in which the node and the database answer. It is a parameter, a list
  that names who goes on next: the task of \<^verbatim>\<open>block.transactions[i]\<close>, or the handler of
  \<^verbatim>\<open>catch\<close>. An entry that names a task that has settled, or the handler when it has
  nothing to do, is passed over.

  When the list is used up, what is left runs in one fixed order: the handler, if it has
  been called, takes its remaining turns and exits while the open tasks wait; otherwise
  the open tasks finish one after the other in the order of \<^verbatim>\<open>block.transactions\<close>, and
  when one of them rejects the handler runs straight through.
\<close>

datatype agent = Task nat | Catch

fun drain_tasks ::
  "'d driver \<Rightarrow> (hash \<Rightarrow> receipt_response) \<Rightarrow> hash \<Rightarrow> task option list \<Rightarrow> 'd \<Rightarrow> 'd run" where
  "drain_tasks Q R block_hash [] d = (Returned, d, [])"
| "drain_tasks Q R block_hash (None # ts) d = drain_tasks Q R block_hash ts d"
| "drain_tasks Q R block_hash (Some tk # ts) d =
     (case finish Q R block_hash tk d of
        (Returned, d1, evs) \<Rightarrow> after evs (drain_tasks Q R block_hash ts d1)
      | (Rejected e, d1, evs) \<Rightarrow> after evs (finish_catch Q Called d1)
      | (Exited k, d1, evs) \<Rightarrow> (Exited k, d1, evs))"

definition drain ::
  "'d driver \<Rightarrow> (hash \<Rightarrow> receipt_response) \<Rightarrow> hash \<Rightarrow> task option list \<Rightarrow> catch_handler \<Rightarrow>
     'd \<Rightarrow> 'd run" where
  "drain Q R block_hash ts h d =
     (if h = NotCalled then drain_tasks Q R block_hash ts d else finish_catch Q h d)"

text \<open>
  \<^verbatim>\<open>Promise.all\<close> over the started tasks \<open>ts\<close> (\<open>None\<close> for a task that has settled), with
  the handler of \<^verbatim>\<open>catch\<close> in the state \<open>h\<close>, under the order \<open>S\<close>. The run returns when
  every task has resolved; it ends with \<open>Exited\<close> when a task or the handler exits the
  process.
\<close>

fun settle ::
  "'d driver \<Rightarrow> (hash \<Rightarrow> receipt_response) \<Rightarrow> hash \<Rightarrow> agent list \<Rightarrow> task option list \<Rightarrow>
     catch_handler \<Rightarrow> 'd \<Rightarrow> 'd run" where
  "settle Q R block_hash [] ts h d = drain Q R block_hash ts h d"
| "settle Q R block_hash (Catch # S) ts NotCalled d = settle Q R block_hash S ts NotCalled d"
| "settle Q R block_hash (Catch # S) ts Called d =
     after [Sql ROLLBACK] (settle Q R block_hash S ts AwaitRollback (snd (Q ROLLBACK d)))"
| "settle Q R block_hash (Catch # S) ts AwaitRollback d =
     after [Sleep 1000] (settle Q R block_hash S ts Sleeping d)"
| "settle Q R block_hash (Catch # S) ts Sleeping d =
     (Exited 1, d,
      [Log ERROR ''Promises failed for retrieving all block data'', Log ERROR ''Error:''])"
| "settle Q R block_hash (Task i # S) ts h d =
     (case (if i < length ts then ts ! i else None) of
        None \<Rightarrow> settle Q R block_hash S ts h d
      | Some tk \<Rightarrow>
          (case resume Q R block_hash tk d of
             (Awaits tk', d1, evs) \<Rightarrow>
               after evs (settle Q R block_hash S (ts[i := Some tk']) h d1)
           | (Resolves, d1, evs) \<Rightarrow>
               after evs (settle Q R block_hash S (ts[i := None]) h d1)
           | (Rejects e, d1, evs) \<Rightarrow>
               after evs (settle Q R block_hash S (ts[i := None])
                            (if h = NotCalled then Called else h) d1)
           | (ExitsProcess k, d1, evs) \<Rightarrow> (Exited k, d1, evs)))"

text \<open>
  The array \<^verbatim>\<open>promises\<close> of \<^verbatim>\<open>storeBlockAssocData\<close> (lines 270, 288-295), joined by
  \<^verbatim>\<open>Promise.all\<close>, with the handler of \<^verbatim>\<open>catch\<close>: \<^verbatim>\<open>addOmmers\<close> issues the ommer
  inserts when \<^verbatim>\<open>block.uncles\<close> is there and not empty, every call of
  \<^verbatim>\<open>getTransaction\<close> requests its receipt, and then the tasks take their turns.
\<close>

definition promises ::
  "'d driver \<Rightarrow> (hash \<Rightarrow> receipt_response) \<Rightarrow> agent list \<Rightarrow> monitor \<Rightarrow> block \<Rightarrow> 'd \<Rightarrow> 'd run" where
  "promises Q R S m b d =
     and_then (case uncles b of
                 None \<Rightarrow> (Returned, d, [])
               | Some us \<Rightarrow> if us = [] then (Returned, d, []) else addOmmers Q m (hash b) us d)
       (\<lambda>d. after (map (\<lambda>t. NodeGetTransactionReceipt (tx_hash t)) (transactions b))
               (settle Q R (hash b) S (map (\<lambda>t. Some (AwaitReceipt t)) (transactions b))
                  NotCalled d))"

text \<open>
  \<^verbatim>\<open>storeBlockAssocData\<close> (lines 268-331). When every promise has resolved, the \<^verbatim>\<open>then\<close>
  branch commits and calls \<^verbatim>\<open>moveToNextBlock\<close> with \<^verbatim>\<open>block.number\<close> if the caller
  passed that handler. A run of \<open>promises\<close> that does not return has exited the process.
\<close>

definition storeBlockAssocData ::
  "'d driver \<Rightarrow> (hash \<Rightarrow> receipt_response) \<Rightarrow> agent list \<Rightarrow> monitor \<Rightarrow> callbacks \<Rightarrow> block \<Rightarrow>
     'd \<Rightarrow> 'd run" where
  "storeBlockAssocData Q R S m cbs b d =
     and_then (run_query Q BEGIN d) (\<lambda>d.
     and_then (run_query Q (deleteLogs (blockchain_id m) (number b)) d) (\<lambda>d.
     and_then (run_query Q (deleteTransactions (blockchain_id m) (number b)) d) (\<lambda>d.
     and_then (promises Q R S m b d) (\<lambda>d.
     and_then (run_query Q COMMIT d) (\<lambda>d.
       if has_moveToNextBlock cbs then moveToNextBlock m (number b) d
       else (Returned, d, []))))))"

subsection \<open>The fetcher and the reconciler: \<^verbatim>\<open>getBlock\<close>\<close>

text \<open>
  Lines 227-265: no stored row has the block's hash. The block row is inserted, and the
  associated data is stored from the insert's callback unless the insert came back
  without a row.
\<close>

definition store_new_block ::
  "'d driver \<Rightarrow> (hash \<Rightarrow> receipt_response) \<Rightarrow> agent list \<Rightarrow> monitor \<Rightarrow> callbacks \<Rightarrow> block \<Rightarrow> 'd \<Rightarrow> 'd run" where
  "store_new_block Q R S m cbs b d =
     (let q = addBlock (blockchain_id m) (number b) (hash b) (header_fields b)
      in case Q q d of (result, d1) \<Rightarrow>
        after
          [if has_foundDuringReviewBlock cbs
           then Log INFO ''* Found new previous block at number''
           else Log INFO ''Found new block at #'',
           Sql q]
          (if no_rows result
           then (Exited 1, d1,
                 [Release, Log ERROR ''No result returned for'', Log ERROR ''block'',
                  Log ERROR ''^^ No result returned ^^''])
           else storeBlockAssocData Q R S m cbs b d1))"

text \<open>
  Lines 196-210: the stored row's transaction count equals the fetched one, and the
  count over the whole height decides. Reading \<^verbatim>\<open>numCheckRes.rows[0].count\<close> throws a
  TypeError when there is no result object or no first row: in the condition when
  \<^verbatim>\<open>rowCount\<close> is truthy, and otherwise in the message of the stale branch.
\<close>

definition check_height_total ::
  "'d driver \<Rightarrow> (hash \<Rightarrow> receipt_response) \<Rightarrow> agent list \<Rightarrow> monitor \<Rightarrow> callbacks \<Rightarrow> int \<Rightarrow> block \<Rightarrow> 'd \<Rightarrow> 'd run" where
  "check_height_total Q R S m cbs block_number b d =
     (let q = getBlockTransactionCount (blockchain_id m) block_number
      in case Q q d of (numCheckRes, d1) \<Rightarrow>
        after [Sql q]
          (case numCheckRes of
             None \<Rightarrow> (Rejected ''TypeError'', d1, [])
           | Some r \<Rightarrow>
               (case rows r of
                  [] \<Rightarrow> (Rejected ''TypeError'', d1, [])
                | count # _ \<Rightarrow>
                    if rowCount r \<noteq> 0 \<and> int (length (transactions b)) = count
                    then (if has_blockAlreadyExists cbs then blockAlreadyExists m block_number d1
                          else (Returned, d1, []))
                    else after [Log INFO ''At block, found stale transactions.'']
                           (storeBlockAssocData Q R S m cbs b d1))))"

text \<open>
  Lines 187-265: the look-up by hash and the three ways on. Reading
  \<^verbatim>\<open>checkRes.rows[0].transaction_count\<close> throws a TypeError when \<^verbatim>\<open>rowCount\<close> is truthy
  and \<^verbatim>\<open>rows\<close> is empty.
\<close>

definition reconcile ::
  "'d driver \<Rightarrow> (hash \<Rightarrow> receipt_response) \<Rightarrow> agent list \<Rightarrow> monitor \<Rightarrow> callbacks \<Rightarrow> int \<Rightarrow> block \<Rightarrow> 'd \<Rightarrow> 'd run" where
  "reconcile Q R S m cbs block_number b d =
     (let q = getBlockByHash (blockchain_id m) (hash b)
      in case Q q d of (checkRes, d1) \<Rightarrow>
        after [Sql q]
          (if no_rows checkRes then store_new_block Q R S m cbs b d1
           else (case checkRes of
                   None \<Rightarrow> store_new_block Q R S m cbs b d1
                 | Some r \<Rightarrow>
                     (case rows r of
                        [] \<Rightarrow> (Rejected ''TypeError'', d1, [])
                      | transaction_count # _ \<Rightarrow>
                          if int (length (transactions b)) = transaction_count
                          then check_height_total Q R S m cbs block_number b d1
                          else after [Log INFO ''At a re-instated block, restoring data.'']
                                 (storeBlockAssocData Q R S m cbs b d1)))))"

text \<open>
  The callback \<^verbatim>\<open>getBlock\<close> hands to the node client (lines 146-266), for one delivery.
  \<open>localErrorRecovered\<close> is the flag of the enclosing call of \<^verbatim>\<open>getBlock\<close>; the result
  carries the flag and the monitor as the callback leaves them.
\<close>

definition getBlock_callback ::
  "'d driver \<Rightarrow> (hash \<Rightarrow> receipt_response) \<Rightarrow> agent list \<Rightarrow> callbacks \<Rightarrow> int \<Rightarrow> delivery \<Rightarrow>
     bool \<Rightarrow> monitor \<Rightarrow> 'd \<Rightarrow> bool \<times> monitor \<times> 'd run" where
  "getBlock_callback Q R S cbs block_number dl localErrorRecovered m d =
     (case err dl of
        Some e \<Rightarrow>
          if node_is_down e then
            if \<not> localErrorRecovered
            then (True, m,
                  after [Log ERROR ''** JSON RPC or connection timeout failure, cycling to next node **'',
                         CycleNodes]
                    (mainLoop m block_number d))
            else (localErrorRecovered, m, Returned, d,
                  [Log ERROR ''** Received duplicate local timeout or JSON RPC error, already cycled **''])
          else (localErrorRecovered, m, Exited 1, d, [Log ERROR ''Unknown error:'', Sleep 2500])
      | None \<Rightarrow>
          (case fetched dl of
             None \<Rightarrow>
               if has_atBlockchainHead cbs
               then (case atBlockchainHead m block_number d of (m', r) \<Rightarrow> (localErrorRecovered, m', r))
               else (localErrorRecovered, m, Returned, d, [])
           | Some b \<Rightarrow> (localErrorRecovered, m, reconcile Q R S m cbs block_number b d)))"

text \<open>
  One call \<^verbatim>\<open>getBlock(block_number, callbacks)\<close> seen from the node's side: the flag
  starts \<^verbatim>\<open>false\<close>, and the client calls the callback once for each delivery, in order.
  A delivery whose handling exits or throws ends the run.
\<close>

fun getBlock_deliveries ::
  "'d driver \<Rightarrow> (hash \<Rightarrow> receipt_response) \<Rightarrow> agent list \<Rightarrow> callbacks \<Rightarrow> int \<Rightarrow> delivery list \<Rightarrow>
     bool \<Rightarrow> monitor \<Rightarrow> 'd \<Rightarrow> monitor \<times> 'd run" where
  "getBlock_deliveries Q R S cbs block_number [] flag m d = (m, Returned, d, [])"
| "getBlock_deliveries Q R S cbs block_number (dl # dls) flag m d =
     (case getBlock_callback Q R S cbs block_number dl flag m d of
        (flag', m', Returned, d', evs) \<Rightarrow>
          (case getBlock_deliveries Q R S cbs block_number dls flag' m' d' of
             (m'', r) \<Rightarrow> (m'', after evs r))
      | (flag', m', c, d', evs) \<Rightarrow> (m', c, d', evs))"

definition getBlock ::
  "'d driver \<Rightarrow> (hash \<Rightarrow> receipt_response) \<Rightarrow> agent list \<Rightarrow> callbacks \<Rightarrow> int \<Rightarrow> delivery list \<Rightarrow>
     monitor \<Rightarrow> 'd \<Rightarrow> monitor \<times> 'd run" where
  "getBlock Q R S cbs block_number dls m d =
     getBlock_deliveries Q R S cbs block_number dls False m d"

subsection \<open>Starting: \<^verbatim>\<open>flushBlock\<close> and \<^verbatim>\<open>start\<close>\<close>

text \<open>\<^verbatim>\<open>flushBlock\<close> (lines 54-84).\<close>

definition flushBlock :: "'d driver \<Rightarrow> monitor \<Rightarrow> int \<Rightarrow> 'd \<Rightarrow> 'd run" where
  "flushBlock Q m block_number d =
     after [Log INFO ''Flushing'']
       (and_then (run_query Q (deleteLogs (blockchain_id m) block_number) d) (\<lambda>d.
        after [Log INFO ''Logs deleted, cascading to events and related tables'']
          (and_then (run_query Q (deleteTransactions (blockchain_id m) block_number) d) (\<lambda>d.
           after [Log INFO ''Transactions deleted'']
             (and_then (run_query Q (deleteOmmers (blockchain_id m) block_number) d) (\<lambda>d.
              after [Log INFO ''Ommers deleted'']
                (and_then (run_query Q (deleteBlock (blockchain_id m) block_number) d) (\<lambda>d.
                   (Returned, d, [Log INFO ''Completed flushing''])))))))))"

text \<open>
  \<^verbatim>\<open>start\<close> (lines 27-52), from the callback of the query for the latest block on: the
  height to resume at is the override, or 0 when the query came back without a row, or
  the number of the first row (reading it throws a TypeError when \<^verbatim>\<open>rowCount\<close> is truthy
  and \<^verbatim>\<open>rows\<close> is empty); that height is flushed and the cursor loop entered there.
\<close>

definition start :: "'d driver \<Rightarrow> monitor \<Rightarrow> 'd \<Rightarrow> 'd run" where
  "start Q m d =
     (let q = getLatestBlock (blockchain_id m)
      in case Q q d of (result, d1) \<Rightarrow>
        after [Sql q]
          (case (case startBlockOverride m of
                   Some n \<Rightarrow> Some (n, Log INFO ''Using start block number override:'')
                 | None \<Rightarrow>
                     if no_rows result then Some (0, Log INFO ''No latest block, starting at 0'')
                     else (case result of
                             None \<Rightarrow> None
                           | Some r \<Rightarrow>
                               (case rows r of
                                  [] \<Rightarrow> None
                                | n # _ \<Rightarrow> Some (n, Log INFO ''Retrieved latest block:''))))
           of
             None \<Rightarrow> (Rejected ''TypeError'', d1, [])
           | Some (latest_number, msg) \<Rightarrow>
               after [msg]
                 (and_then (flushBlock Q m latest_number d1) (mainLoop m latest_number))))"

subsection \<open>A database session to run the monitor on\<close>

text \<open>
  The rows of the four tables. A block row is (blockchain id, number, hash, header
  fields); an ommer row is (blockchain id, ommer hash, nibling hash); a transaction row
  is (block hash, transaction, status, contract address); a log row is (log id,
  transaction hash, log).
\<close>

record tables =
  block_rows :: "(nat \<times> int \<times> hash \<times> string list) list"
  ommer_rows :: "(nat \<times> hash \<times> hash) list"
  transaction_rows :: "(hash \<times> transaction \<times> bool option \<times> string option) list"
  log_rows :: "(int \<times> hash \<times> log_entry) list"

text \<open>
  A session: the tables as the session sees them, the tables as they were at
  \<^verbatim>\<open>BEGIN\<close> while a transaction is open, and the next log id the store assigns.
\<close>

record database =
  stored :: tables
  open_transaction :: "tables option"
  next_log_id :: int

definition hashes_at :: "tables \<Rightarrow> nat \<Rightarrow> int \<Rightarrow> hash list" where
  "hashes_at t bid n = map (\<lambda>(_, _, h, _). h) (filter (\<lambda>(bid', n', _, _). bid' = bid \<and> n' = n) (block_rows t))"

definition transactions_of :: "tables \<Rightarrow> hash \<Rightarrow> (hash \<times> transaction \<times> bool option \<times> string option) list" where
  "transactions_of t h = filter (\<lambda>(bh, _, _, _). bh = h) (transaction_rows t)"

definition transactions_at :: "tables \<Rightarrow> nat \<Rightarrow> int \<Rightarrow> (hash \<times> transaction \<times> bool option \<times> string option) list" where
  "transactions_at t bid n = filter (\<lambda>(bh, _, _, _). bh \<in> set (hashes_at t bid n)) (transaction_rows t)"

definition done_with :: "nat \<Rightarrow> int list \<Rightarrow> qresult option" where
  "done_with k rs = Some \<lparr> rowCount = k, rows = rs \<rparr>"

text \<open>
  Modelled from the spec: the SQL of BlockQueries.js and TransactionQueries.js and the
  driver of Database.js are missing from the sources. Sections 3, 4.4 and 6 of the spec
  say what each query is for: \<^verbatim>\<open>getBlockByHash\<close> returns 0 or 1 row with the derived
  \<^verbatim>\<open>transaction_count\<close> of the block with that hash; \<^verbatim>\<open>getBlockTransactionCount\<close>
  returns 1 row with the count summed across all block rows at the height; \<^verbatim>\<open>addBlock\<close>
  returns the inserted row or nothing, and (blockchain id, hash) is unique; the deletes
  at a height remove the rows that belong to the block rows at that height, and deleting
  transactions cascades to their logs; the store assigns \<^verbatim>\<open>log_id\<close>; \<^verbatim>\<open>BEGIN\<close>,
  \<^verbatim>\<open>COMMIT\<close> and \<^verbatim>\<open>ROLLBACK\<close> bracket one transaction of the session.
\<close>

definition session_query :: "database driver" where
  "session_query q db =
     (let t = stored db in
      case q of
        getLatestBlock bid \<Rightarrow>
          (case map (\<lambda>(_, n, _, _). n) (filter (\<lambda>(bid', _, _, _). bid' = bid) (block_rows t)) of
             [] \<Rightarrow> (done_with 0 [], db)
           | n # ns \<Rightarrow> (done_with 1 [fold max ns n], db))
      | getBlockByHash bid h \<Rightarrow>
          (if h \<in> set (map (\<lambda>(_, _, h', _). h') (filter (\<lambda>(bid', _, _, _). bid' = bid) (block_rows t)))
           then (done_with 1 [int (length (transactions_of t h))], db)
           else (done_with 0 [], db))
      | getBlockTransactionCount bid n \<Rightarrow>
          (done_with 1 [int (length (transactions_at t bid n))], db)
      | addBlock bid n h hf \<Rightarrow>
          (if h \<in> set (map (\<lambda>(_, _, h', _). h') (filter (\<lambda>(bid', _, _, _). bid' = bid) (block_rows t)))
           then (done_with 0 [], db)
           else (done_with 1 [n], db\<lparr>stored := t\<lparr>block_rows := block_rows t @ [(bid, n, h, hf)]\<rparr>\<rparr>))
      | deleteBlock bid n \<Rightarrow>
          (done_with 0 [],
           db\<lparr>stored := t\<lparr>block_rows := filter (\<lambda>(bid', n', _, _). \<not> (bid' = bid \<and> n' = n)) (block_rows t)\<rparr>\<rparr>)
      | deleteOmmers bid n \<Rightarrow>
          (done_with 0 [],
           db\<lparr>stored := t\<lparr>ommer_rows :=
             filter (\<lambda>(bid', _, nib). \<not> (bid' = bid \<and> nib \<in> set (hashes_at t bid n))) (ommer_rows t)\<rparr>\<rparr>)
      | addOmmer bid om nib \<Rightarrow>
          (done_with 1 [], db\<lparr>stored := t\<lparr>ommer_rows := ommer_rows t @ [(bid, om, nib)]\<rparr>\<rparr>)
      | deleteLogs bid n \<Rightarrow>
          (done_with 0 [],
           db\<lparr>stored := t\<lparr>log_rows :=
             filter (\<lambda>(_, th, _). th \<notin> set (map (\<lambda>(_, tx, _, _). tx_hash tx) (transactions_at t bid n)))
               (log_rows t)\<rparr>\<rparr>)
      | deleteTransactions bid n \<Rightarrow>
          (done_with 0 [],
           db\<lparr>stored := t\<lparr>
             transaction_rows := filter (\<lambda>(bh, _, _, _). bh \<notin> set (hashes_at t bid n)) (transaction_rows t),
             log_rows :=
               filter (\<lambda>(_, th, _). th \<notin> set (map (\<lambda>(_, tx, _, _). tx_hash tx) (transactions_at t bid n)))
                 (log_rows t)\<rparr>\<rparr>)
      | addTransaction bh tx st ca \<Rightarrow>
          (done_with 1 [], db\<lparr>stored := t\<lparr>transaction_rows := transaction_rows t @ [(bh, tx, st, ca)]\<rparr>\<rparr>)
      | deleteLogsByTransactionHash th \<Rightarrow>
          (done_with 0 [],
           db\<lparr>stored := t\<lparr>log_rows := filter (\<lambda>(_, th', _). th' \<noteq> th) (log_rows t)\<rparr>\<rparr>)
      | addLog th l \<Rightarrow>
          (done_with 1 [next_log_id db],
           db\<lparr>stored := t\<lparr>log_rows := log_rows t @ [(next_log_id db, th, l)]\<rparr>,
              next_log_id := next_log_id db + 1\<rparr>)
      | BEGIN \<Rightarrow>
          (done_with 0 [],
           case open_transaction db of None \<Rightarrow> db\<lparr>open_transaction := Some t\<rparr> | Some _ \<Rightarrow> db)
      | COMMIT \<Rightarrow> (done_with 0 [], db\<lparr>open_transaction := None\<rparr>)
      | ROLLBACK \<Rightarrow>
          (done_with 0 [],
           case open_transaction db of
             None \<Rightarrow> db
           | Some t0 \<Rightarrow> db\<lparr>stored := t0, open_transaction := None\<rparr>))"

text \<open>
  A session on which chosen queries come back without a row and change nothing, as an
  insert does that the schema turns down.
\<close>

definition refusing :: "(query \<Rightarrow> bool) \<Rightarrow> 'd driver \<Rightarrow> 'd driver" where
  "refusing P Q q db = (if P q then (done_with 0 [], db) else Q q db)"

definition empty_database :: database where
  "empty_database =
     \<lparr> stored = \<lparr> block_rows = [], ommer_rows = [], transaction_rows = [], log_rows = [] \<rparr>,
       open_transaction = None,
       next_log_id = 1 \<rparr>"

subsection \<open>Reading a run\<close>

definition completion_of :: "'d run \<Rightarrow> completion" where
  "completion_of r = fst r"

definition db_of :: "'d run \<Rightarrow> 'd" where
  "db_of r = fst (snd r)"

definition events_of :: "'d run \<Rightarrow> event list" where
  "events_of r = snd (snd r)"

text \<open>
  The events \<^verbatim>\<open>storeBlockAssocData\<close> and the handlers it calls can produce: everything
  but \<^verbatim>\<open>cycleNodes\<close>, the two look-ups of the reconciler, and the statements on the block
  and ommer tables that only \<^verbatim>\<open>getBlock\<close> and \<^verbatim>\<open>flushBlock\<close> send.
\<close>

fun persist_event :: "event \<Rightarrow> bool" where
  "persist_event (Sql (getLatestBlock _)) = False"
| "persist_event (Sql (getBlockByHash _ _)) = False"
| "persist_event (Sql (getBlockTransactionCount _ _)) = False"
| "persist_event (Sql (addBlock _ _ _ _)) = False"
| "persist_event (Sql (deleteBlock _ _)) = False"
| "persist_event (Sql (deleteOmmers _ _)) = False"
| "persist_event CycleNodes = False"
| "persist_event _ = True"

text \<open>The events a task of \<^verbatim>\<open>promises\<close> can produce.\<close>

fun task_event :: "event \<Rightarrow> bool" where
  "task_event (Sql (addOmmer _ _ _)) = True"
| "task_event (Sql (addTransaction _ _ _ _)) = True"
| "task_event (Sql (deleteLogsByTransactionHash _)) = True"
| "task_event (Sql (addLog _ _)) = True"
| "task_event (NodeGetTransactionReceipt _) = True"
| "task_event (SetDecodedLog _ _) = True"
| "task_event (Log _ _) = True"
| "task_event Release = True"
| "task_event _ = False"

text \<open>A statement that inserts or deletes a block row.\<close>

fun writes_block_row :: "event \<Rightarrow> bool" where
  "writes_block_row (Sql (addBlock _ _ _ _)) = True"
| "writes_block_row (Sql (deleteBlock _ _)) = True"
| "writes_block_row _ = False"

text \<open>The database after the queries of a trace have run on it, in order.\<close>

fun replay :: "'d driver \<Rightarrow> 'd \<Rightarrow> event list \<Rightarrow> 'd" where
  "replay Q d [] = d"
| "replay Q d (Sql q # evs) = replay Q (snd (Q q d)) evs"
| "replay Q d (_ # evs) = replay Q d evs"

fun is_query :: "event \<Rightarrow> bool" where
  "is_query (Sql _) = True"
| "is_query _ = False"

subsection \<open>Example data\<close>

definition tx_a :: transaction where
  "tx_a = \<lparr> tx_hash = ''0xa1'', tx_fields = [] \<rparr>"

definition tx_b :: transaction where
  "tx_b = \<lparr> tx_hash = ''0xa2'', tx_fields = [] \<rparr>"

definition tx_c :: transaction where
  "tx_c = \<lparr> tx_hash = ''0xa3'', tx_fields = [] \<rparr>"

definition transfer_log :: log_entry where
  "transfer_log =
     \<lparr> blockNumber = 7, logIndex = 0, address = ''0xc0'', data = ''0x'', topics = [''0xdd''] \<rparr>"

definition block_7 :: block where
  "block_7 =
     \<lparr> number = 7, hash = ''0xb7'', header_fields = [],
       transactions = [tx_a, tx_b, tx_c], uncles = Some [''0xe1''] \<rparr>"

text \<open>Every receipt is there; the one of \<open>tx_a\<close> carries a log.\<close>

definition receipts_all :: "hash \<Rightarrow> receipt_response" where
  "receipts_all h =
     (if h = ''0xa1''
      then ReceiptOf \<lparr> status = True, contractAddress = None, logs = Some [transfer_log] \<rparr>
      else ReceiptOf \<lparr> status = True, contractAddress = None, logs = Some [] \<rparr>)"

text \<open>The receipt of \<open>tx_b\<close> is not there yet.\<close>

definition receipts_b_missing :: "hash \<Rightarrow> receipt_response" where
  "receipts_b_missing h = (if h = ''0xa2'' then ReceiptNull else receipts_all h)"


text \<open>Block 7 stored with its three transactions and the log.\<close>

definition stored_7 :: database where
  "stored_7 =
     \<lparr> stored =
         \<lparr> block_rows = [(1, 7, ''0xb7'', [])],
           ommer_rows = [(1, ''0xe1'', ''0xb7'')],
           transaction_rows =
             [(''0xb7'', tx_a, Some True, None), (''0xb7'', tx_b, Some True, None),
              (''0xb7'', tx_c, Some True, None)],
           log_rows = [(1, ''0xa1'', transfer_log)] \<rparr>,
       open_transaction = None,
       next_log_id = 2 \<rparr>"

text \<open>Block 7 stored when the receipt of \<open>tx_b\<close> was missing.\<close>

definition stored_7_partial :: database where
  "stored_7_partial =
     \<lparr> stored =
         \<lparr> block_rows = [(1, 7, ''0xb7'', [])],
           ommer_rows = [(1, ''0xe1'', ''0xb7'')],
           transaction_rows =
             [(''0xb7'', tx_a, Some True, None), (''0xb7'', tx_c, Some True, None)],
           log_rows = [(1, ''0xa1'', transfer_log)] \<rparr>,
       open_transaction = None,
       next_log_id = 2 \<rparr>"

text \<open>
  Block 7 stored in full beside an earlier block at the same height that still has a
  transaction row.
\<close>

definition stored_7_uncled :: database where
  "stored_7_uncled =
     \<lparr> stored =
         \<lparr> block_rows = [(1, 7, ''0xaa'', []), (1, 7, ''0xb7'', [])],
           ommer_rows = [(1, ''0xe1'', ''0xb7'')],
           transaction_rows =
             [(''0xaa'', tx_b, Some True, None),
              (''0xb7'', tx_a, Some True, None), (''0xb7'', tx_b, Some True, None),
              (''0xb7'', tx_c, Some True, None)],
           log_rows = [(1, ''0xa1'', transfer_log)] \<rparr>,
       open_transaction = None,
       next_log_id = 2 \<rparr>"

text \<open>Queries that the sessions of the examples turn down.\<close>

fun transaction_or_log_insert :: "query \<Rightarrow> bool" where
  "transaction_or_log_insert (addTransaction _ _ _ _) = True"
| "transaction_or_log_insert (addLog _ _) = True"
| "transaction_or_log_insert _ = False"

fun height_count :: "query \<Rightarrow> bool" where
  "height_count (getBlockTransactionCount _ _) = True"
| "height_count _ = False"

text \<open>
  A run from the database \<open>d\<close> is traced when the database it ends with is the one its
  queries produce from \<open>d\<close>, in the order of the trace.
\<close>

definition traced :: "'d driver \<Rightarrow> 'd \<Rightarrow> 'd run \<Rightarrow> bool" where
  "traced Q d r \<longleftrightarrow> db_of r = replay Q d (events_of r)"

text \<open>
  The block rows of a session are \<open>B\<close>, also in the tables an open transaction would
  roll back to.
\<close>

definition block_rows_are :: "(nat \<times> int \<times> hash \<times> string list) list \<Rightarrow> database \<Rightarrow> bool" where
  "block_rows_are B x \<longleftrightarrow>
     block_rows (stored x) = B \<and>
     (case open_transaction x of None \<Rightarrow> True | Some t0 \<Rightarrow> block_rows t0 = B)"

text \<open>An entry of the cursor loop.\<close>

fun enters_loop :: "event \<Rightarrow> bool" where
  "enters_loop (MainLoop _) = True"
| "enters_loop _ = False"

text \<open>The ommers \<^verbatim>\<open>addOmmers\<close> is called with: none when \<^verbatim>\<open>block.uncles\<close> is absent.\<close>

definition ommers_of :: "block \<Rightarrow> hash list" where
  "ommers_of b = (case uncles b of None \<Rightarrow> [] | Some us \<Rightarrow> us)"

subsection \<open>Reading the tasks of a block\<close>

text \<open>The four events of the handler of \<^verbatim>\<open>catch\<close> (lines 308, 326-328).\<close>

definition catch_event :: "event \<Rightarrow> bool" where
  "catch_event ev \<longleftrightarrow>
     ev = Sql ROLLBACK \<or> ev = Sleep 1000 \<or>
     ev = Log ERROR ''Promises failed for retrieving all block data'' \<or>
     ev = Log ERROR ''Error:''"

text \<open>The events the joined tasks and the handler of \<^verbatim>\<open>catch\<close> can produce.\<close>

definition promise_event :: "event \<Rightarrow> bool" where
  "promise_event ev \<longleftrightarrow> task_event ev \<or> ev = Sql ROLLBACK \<or> ev = Sleep 1000"

text \<open>What the handler of \<^verbatim>\<open>catch\<close> still does, from each of its states.\<close>

definition catch_rest :: "catch_handler \<Rightarrow> event list" where
  "catch_rest h =
     (case h of
        Sleeping \<Rightarrow>
          [Log ERROR ''Promises failed for retrieving all block data'', Log ERROR ''Error:'']
      | AwaitRollback \<Rightarrow>
          [Sleep 1000, Log ERROR ''Promises failed for retrieving all block data'',
           Log ERROR ''Error:'']
      | _ \<Rightarrow>
          [Sql ROLLBACK, Sleep 1000, Log ERROR ''Promises failed for retrieving all block data'',
           Log ERROR ''Error:''])"





text \<open>The statements of transaction tasks in a trace, in the order of the trace.\<close>

fun transaction_statement :: "query \<Rightarrow> bool" where
  "transaction_statement (addTransaction _ _ _ _) = True"
| "transaction_statement (deleteLogsByTransactionHash _) = True"
| "transaction_statement (addLog _ _) = True"
| "transaction_statement _ = False"

fun statements_in :: "event list \<Rightarrow> query list" where
  "statements_in [] = []"
| "statements_in (Sql q # evs) =
     (if transaction_statement q then q # statements_in evs else statements_in evs)"
| "statements_in (_ # evs) = statements_in evs"









section \<open>Properties\<close>

subsection \<open>Runs and their events\<close>

lemma run_parts [simp]:
  "events_of (c, d, evs) = evs" "db_of (c, d, evs) = d" "completion_of (c, d, evs) = c"
  by (simp_all add: events_of_def db_of_def completion_of_def)

lemma events_of_after [simp]: "events_of (after evs r) = evs @ events_of r"
  by (cases r) simp

lemma db_of_after [simp]: "db_of (after evs r) = db_of r"
  by (cases r) simp

lemma completion_of_after [simp]: "completion_of (after evs r) = completion_of r"
  by (cases r) simp

lemma and_then_events:
  assumes "list_all P (events_of r)" and "\<And>d. list_all P (events_of (f d))"
  shows "list_all P (events_of (and_then r f))"
proof (cases r)
  case (fields c d evs)
  with assms show ?thesis by (cases c) simp_all
qed

lemma run_query_events [simp]: "events_of (run_query Q q d) = [Sql q]"
  by (simp add: run_query_def)

lemma after_Nil [simp]: "after [] r = r"
  by (cases r) simp

lemma after_after [simp]: "after evs (after evs' r) = after (evs @ evs') r"
  by (cases r) simp

lemma and_then_after: "and_then (after evs r) f = after evs (and_then r f)"
proof (cases r)
  case (fields c d evs')
  then show ?thesis by (cases c) simp_all
qed

lemma and_then_assoc: "and_then (and_then r f) g = and_then r (\<lambda>d. and_then (f d) g)"
proof (cases r)
  case (fields c d evs)
  then show ?thesis by (cases c) (simp_all add: and_then_after)
qed

subsection \<open>What the persister can emit\<close>

lemma addOmmers_task: "list_all task_event (events_of (addOmmers Q m h os d))"
  by (induction os arbitrary: d) (simp_all add: and_then_events)

lemma getTransaction_logs_task:
  "list_all task_event (events_of (getTransaction_logs Q h ls d))"
  by (induction ls arbitrary: d) (simp_all split: prod.split option.split list.split)

lemma getTransaction_task: "list_all task_event (events_of (getTransaction Q R bh t d))"
  by (simp add: getTransaction_def Let_def and_then_events getTransaction_logs_task
      split: receipt_response.split prod.split option.split)

subsection \<open>The turns of a task\<close>

lemma resume_turns:
  "resume Q R bh tk d = (Awaits tk', d1, evs) \<Longrightarrow> turns_left R tk' < turns_left R tk"
  by (cases tk)
     (auto simp: next_log_def Let_def
        split: receipt_response.splits prod.splits option.splits list.splits if_splits)

lemma finish_turn:
  "resume Q R bh tk d = (r, d1, evs) \<Longrightarrow>
     finish Q R bh tk d =
       (case r of
          Awaits tk' \<Rightarrow> after evs (finish Q R bh tk' d1)
        | Resolves \<Rightarrow> (Returned, d1, evs)
        | Rejects e \<Rightarrow> (Rejected e, d1, evs)
        | ExitsProcess k \<Rightarrow> (Exited k, d1, evs))"
  by (subst finish.simps) (simp split: resumed.split)

lemma finish_induct [case_names turn]:
  assumes "\<And>tk d. (\<And>tk' d1 evs. resume Q R bh tk d = (Awaits tk', d1, evs) \<Longrightarrow> P tk' d1) \<Longrightarrow> P tk d"
  shows "P tk d"
proof -
  have "P tk d" if "turns_left R tk = n" for n tk d
    using that
  proof (induction n arbitrary: tk d rule: less_induct)
    case (less n tk d)
    show ?case
    proof (rule assms)
      fix tk' d1 evs
      assume "resume Q R bh tk d = (Awaits tk', d1, evs)"
      from resume_turns [OF this] less.prems have "turns_left R tk' < n" by simp
      from less.IH [OF this refl] show "P tk' d1" .
    qed
  qed
  then show ?thesis by simp
qed

text \<open>A property of runs that every turn keeps holds of the task run to its end.\<close>

lemma finish_cases:
  assumes "resume Q R bh tk d = (r, d1, evs)"
  obtains
    (awaits) tk' where "r = Awaits tk'" "finish Q R bh tk d = after evs (finish Q R bh tk' d1)"
  | (resolves) "r = Resolves" "finish Q R bh tk d = (Returned, d1, evs)"
  | (rejects) e where "r = Rejects e" "finish Q R bh tk d = (Rejected e, d1, evs)"
  | (exits) k where "r = ExitsProcess k" "finish Q R bh tk d = (Exited k, d1, evs)"
  using finish_turn [OF assms] by (cases r) simp_all

lemma next_log_task: "list_all task_event (snd (snd (next_log Q t ls d)))"
  by (simp add: next_log_def split: list.split prod.split)

lemma resume_task: "list_all task_event (snd (snd (resume Q R bh tk d)))"
proof (cases tk)
  case (AwaitLog t l ls res)
  obtain r d1 evs where "next_log Q t ls d = (r, d1, evs)" by (cases "next_log Q t ls d")
  with next_log_task [of Q t ls d] AwaitLog show ?thesis
    by (simp split: option.split list.split)
qed (simp_all add: next_log_task Let_def split: receipt_response.split prod.split option.split)

lemma finish_task: "list_all task_event (events_of (finish Q R bh tk d))"
proof (induction tk d rule: finish_induct [where Q = Q and R = R and bh = bh])
  case (turn tk d)
  obtain r d1 evs where s: "resume Q R bh tk d = (r, d1, evs)" by (cases "resume Q R bh tk d")
  with resume_task [of Q R bh tk d] have evs: "list_all task_event evs" by simp
  from s show ?case
  proof (cases rule: finish_cases)
    case (awaits tk')
    with turn [of tk' d1 evs] s evs show ?thesis by simp
  qed (simp_all add: evs)
qed


subsection \<open>One entry of the order\<close>

lemma settle_cases [case_names skip rollback sleep exit awaits resolves rejects exits]:
  obtains
    (skip) "settle Q R bh (a # S) ts h d = settle Q R bh S ts h d"
  | (rollback) "a = Catch" "h = Called"
      "settle Q R bh (a # S) ts h d =
         after [Sql ROLLBACK] (settle Q R bh S ts AwaitRollback (snd (Q ROLLBACK d)))"
  | (sleep) "a = Catch" "h = AwaitRollback"
      "settle Q R bh (a # S) ts h d = after [Sleep 1000] (settle Q R bh S ts Sleeping d)"
  | (exit) "a = Catch" "h = Sleeping"
      "settle Q R bh (a # S) ts h d =
         (Exited 1, d,
          [Log ERROR ''Promises failed for retrieving all block data'', Log ERROR ''Error:''])"
  | (awaits) i tk tk' d1 evs where "a = Task i" "i < length ts" "ts ! i = Some tk"
      "resume Q R bh tk d = (Awaits tk', d1, evs)"
      "settle Q R bh (a # S) ts h d = after evs (settle Q R bh S (ts[i := Some tk']) h d1)"
  | (resolves) i tk d1 evs where "a = Task i" "i < length ts" "ts ! i = Some tk"
      "resume Q R bh tk d = (Resolves, d1, evs)"
      "settle Q R bh (a # S) ts h d = after evs (settle Q R bh S (ts[i := None]) h d1)"
  | (rejects) i tk e d1 evs where "a = Task i" "i < length ts" "ts ! i = Some tk"
      "resume Q R bh tk d = (Rejects e, d1, evs)"
      "settle Q R bh (a # S) ts h d =
         after evs (settle Q R bh S (ts[i := None]) (if h = NotCalled then Called else h) d1)"
  | (exits) i tk k d1 evs where "a = Task i" "i < length ts" "ts ! i = Some tk"
      "resume Q R bh tk d = (ExitsProcess k, d1, evs)"
      "settle Q R bh (a # S) ts h d = (Exited k, d1, evs)"
proof (cases a)
  case Catch
  then show ?thesis using skip rollback sleep exit by (cases h) simp_all
next
  case (Task i)
  show ?thesis
  proof (cases "if i < length ts then ts ! i else None")
    case None
    with Task show ?thesis using skip by simp
  next
    case (Some tk)
    then have i: "i < length ts" "ts ! i = Some tk" by (simp_all split: if_splits)
    obtain r d1 evs where s: "resume Q R bh tk d = (r, d1, evs)" by (cases "resume Q R bh tk d")
    show ?thesis
    proof (cases r)
      case (Awaits tk')
      with Task Some s i show ?thesis using awaits [of i tk tk' d1 evs] by simp
    next
      case Resolves
      with Task Some s i show ?thesis using resolves [of i tk d1 evs] by simp
    next
      case (Rejects e)
      with Task Some s i show ?thesis using rejects [of i tk e d1 evs] by simp
    next
      case (ExitsProcess k)
      with Task Some s i show ?thesis using exits [of i tk k d1 evs] by simp
    qed
  qed
qed

lemma drain_tasks_cases [case_names returned rejected exited]:
  obtains
    (returned) d1 evs where "finish Q R bh tk d = (Returned, d1, evs)"
      "drain_tasks Q R bh (Some tk # ts) d = after evs (drain_tasks Q R bh ts d1)"
  | (rejected) e d1 evs where "finish Q R bh tk d = (Rejected e, d1, evs)"
      "drain_tasks Q R bh (Some tk # ts) d = after evs (finish_catch Q Called d1)"
  | (exited) k d1 evs where "finish Q R bh tk d = (Exited k, d1, evs)"
      "drain_tasks Q R bh (Some tk # ts) d = (Exited k, d1, evs)"
proof -
  obtain c d1 evs where f: "finish Q R bh tk d = (c, d1, evs)" by (cases "finish Q R bh tk d")
  show ?thesis
  proof (cases c)
    case Returned
    with f show ?thesis using returned [of d1 evs] by simp
  next
    case (Rejected e)
    with f show ?thesis using rejected [of e d1 evs] by simp
  next
    case (Exited k)
    with f show ?thesis using exited [of k d1 evs] by simp
  qed
qed

subsection \<open>What the joined tasks can emit\<close>

lemma finish_catch_promise: "list_all promise_event (events_of (finish_catch Q h d))"
  by (simp add: finish_catch_def promise_event_def split: catch_handler.split)

lemma task_events_promise: "list_all task_event evs \<Longrightarrow> list_all promise_event evs"
  by (simp add: list_all_iff promise_event_def)

lemma drain_tasks_promise: "list_all promise_event (events_of (drain_tasks Q R bh ts d))"
proof (induction ts arbitrary: d)
  case Nil
  then show ?case by simp
next
  case (Cons x ts)
  show ?case
  proof (cases x)
    case None
    with Cons show ?thesis by simp
  next
    case (Some tk)
    show ?thesis
    proof (cases rule: drain_tasks_cases [of Q R bh tk d ts])
      case (returned d1 evs)
      with finish_task [of Q R bh tk d] Cons [of d1] Some show ?thesis
        by (simp add: task_events_promise)
    next
      case (rejected e d1 evs)
      with finish_task [of Q R bh tk d] finish_catch_promise [of Q Called d1] Some show ?thesis
        by (simp add: task_events_promise)
    next
      case (exited k d1 evs)
      with finish_task [of Q R bh tk d] Some show ?thesis
        by (simp add: task_events_promise)
    qed
  qed
qed

lemma settle_promise: "list_all promise_event (events_of (settle Q R bh S ts h d))"
proof (induction S arbitrary: ts h d)
  case Nil
  then show ?case by (simp add: drain_def drain_tasks_promise finish_catch_promise)
next
  case (Cons a S)
  show ?case
  proof (cases rule: settle_cases [of Q R bh a S ts h d])
    case skip
    with Cons show ?thesis by simp
  next
    case rollback
    with Cons show ?thesis by (simp add: promise_event_def)
  next
    case sleep
    with Cons show ?thesis by (simp add: promise_event_def)
  next
    case exit
    then show ?thesis by (simp add: promise_event_def)
  next
    case (awaits i tk tk' d1 evs)
    with resume_task [of Q R bh tk d] Cons show ?thesis by (simp add: task_events_promise)
  next
    case (resolves i tk d1 evs)
    with resume_task [of Q R bh tk d] Cons show ?thesis by (simp add: task_events_promise)
  next
    case (rejects i tk e d1 evs)
    with resume_task [of Q R bh tk d] Cons show ?thesis by (simp add: task_events_promise)
  next
    case (exits i tk k d1 evs)
    with resume_task [of Q R bh tk d] show ?thesis by (simp add: task_events_promise)
  qed
qed


subsection \<open>The database changes only through the queries of the trace\<close>

lemma replay_append: "replay Q d (evs @ evs') = replay Q (replay Q d evs) evs'"
proof (induction evs arbitrary: d)
  case Nil
  then show ?case by simp
next
  case (Cons ev evs)
  then show ?case by (cases ev) simp_all
qed

lemma traced_triple [simp]: "traced Q d (c, d', evs) \<longleftrightarrow> d' = replay Q d evs"
  by (simp add: traced_def)

lemma traced_after: "traced Q (replay Q d evs) r \<Longrightarrow> traced Q d (after evs r)"
  by (simp add: traced_def replay_append)

lemma traced_and_then:
  assumes "traced Q d r" and "\<And>d'. traced Q d' (f d')"
  shows "traced Q d (and_then r f)"
proof (cases r)
  case (fields c d1 evs)
  with assms(1) have d1: "d1 = replay Q d evs" by simp
  show ?thesis
  proof (cases c)
    case Returned
    with fields d1 assms(2) [of d1] show ?thesis by (simp add: traced_after)
  qed (use fields d1 in simp_all)
qed

lemma traced_run_query [simp]: "traced Q d (run_query Q q d)"
  by (simp add: run_query_def)

lemma traced_addOmmers: "traced Q d (addOmmers Q m h os d)"
  by (induction os arbitrary: d) (simp_all add: traced_and_then)

lemma next_log_traced: "next_log Q t ls d = (r, d1, evs) \<Longrightarrow> d1 = replay Q d evs"
  by (auto simp: next_log_def split: list.splits prod.splits)

lemma resume_traced: "resume Q R bh tk d = (r, d1, evs) \<Longrightarrow> d1 = replay Q d evs"
proof (cases tk)
  case (AwaitLog t l ls res)
  assume s: "resume Q R bh tk d = (r, d1, evs)"
  obtain r' d' evs' where n: "next_log Q t ls d = (r', d', evs')" by (cases "next_log Q t ls d")
  from next_log_traced [OF n] s AwaitLog n show ?thesis
    by (auto split: if_splits option.splits list.splits)
qed (auto simp: Let_def dest: next_log_traced
       split: receipt_response.splits prod.splits option.splits if_splits)

lemma traced_finish: "traced Q d (finish Q R bh tk d)"
proof (induction tk d rule: finish_induct [where Q = Q and R = R and bh = bh])
  case (turn tk d)
  obtain r d1 evs where s: "resume Q R bh tk d = (r, d1, evs)" by (cases "resume Q R bh tk d")
  note d1 = resume_traced [OF s]
  from s show ?case
  proof (cases rule: finish_cases)
    case (awaits tk')
    with turn [of tk' d1 evs] s d1 show ?thesis by (simp add: traced_after)
  qed (simp_all add: d1)
qed

lemma traced_finish_catch: "traced Q d (finish_catch Q h d)"
  by (simp add: finish_catch_def split: catch_handler.split)

lemma traced_drain_tasks: "traced Q d (drain_tasks Q R bh ts d)"
proof (induction ts arbitrary: d)
  case Nil
  then show ?case by simp
next
  case (Cons x ts)
  show ?case
  proof (cases x)
    case None
    with Cons show ?thesis by simp
  next
    case (Some tk)
    show ?thesis
    proof (cases rule: drain_tasks_cases [of Q R bh tk d ts])
      case (returned d1 evs)
      with traced_finish [of Q d R bh tk] Cons [of d1] Some show ?thesis
        by (simp add: traced_after)
    next
      case (rejected e d1 evs)
      with traced_finish [of Q d R bh tk] traced_finish_catch [of Q d1 Called] Some show ?thesis
        by (simp add: traced_after)
    next
      case (exited k d1 evs)
      with traced_finish [of Q d R bh tk] Some show ?thesis by simp
    qed
  qed
qed

lemma traced_settle: "traced Q d (settle Q R bh S ts h d)"
proof (induction S arbitrary: ts h d)
  case Nil
  then show ?case by (simp add: drain_def traced_drain_tasks traced_finish_catch)
next
  case (Cons a S)
  show ?case
  proof (cases rule: settle_cases [of Q R bh a S ts h d])
    case skip
    with Cons show ?thesis by simp
  next
    case rollback
    with Cons show ?thesis by (simp add: traced_after)
  next
    case sleep
    with Cons show ?thesis by (simp add: traced_after)
  next
    case exit
    then show ?thesis by simp
  next
    case (awaits i tk tk' d1 evs)
    with resume_traced [of Q R bh tk d] Cons show ?thesis
      by (simp add: traced_after)
  next
    case (resolves i tk d1 evs)
    with resume_traced [of Q R bh tk d] Cons show ?thesis
      by (simp add: traced_after)
  next
    case (rejects i tk e d1 evs)
    with resume_traced [of Q R bh tk d]
      Cons
    show ?thesis by (simp add: traced_after)
  next
    case (exits i tk k d1 evs)
    with resume_traced [of Q R bh tk d] show ?thesis by simp
  qed
qed

lemma traced_promises: "traced Q d (promises Q R S m b d)"
  unfolding promises_def
proof (intro traced_and_then)
  show "traced Q d (case uncles b of None \<Rightarrow> (Returned, d, [])
            | Some us \<Rightarrow> if us = [] then (Returned, d, []) else addOmmers Q m (hash b) us d)"
    by (simp add: traced_addOmmers split: option.split)
  show "traced Q d' (after (map (\<lambda>t. NodeGetTransactionReceipt (tx_hash t)) (transactions b))
          (settle Q R (hash b) S (map (\<lambda>t. Some (AwaitReceipt t)) (transactions b)) NotCalled d'))"
    for d'
  proof (rule traced_after)
    have rp: "replay Q d' (map (\<lambda>t. NodeGetTransactionReceipt (tx_hash t)) ts) = d'"
      for ts :: "transaction list"
      by (induction ts) simp_all
    show "traced Q (replay Q d' (map (\<lambda>t. NodeGetTransactionReceipt (tx_hash t)) (transactions b)))
        (settle Q R (hash b) S (map (\<lambda>t. Some (AwaitReceipt t)) (transactions b)) NotCalled d')"
      unfolding rp by (rule traced_settle)
  qed
qed

subsection \<open>How the joined tasks end\<close>

lemma resume_exit_status: "resume Q R bh tk d = (ExitsProcess k, d1, evs) \<Longrightarrow> k = 1"
proof (cases tk)
  case (AwaitLog t l ls res)
  assume "resume Q R bh tk d = (ExitsProcess k, d1, evs)"
  with AwaitLog show ?thesis
    by (auto simp: next_log_def split: if_splits option.splits list.splits prod.splits)
qed (auto simp: Let_def next_log_def
       split: receipt_response.splits prod.splits option.splits if_splits list.splits)

lemma finish_exit_status: "completion_of (finish Q R bh tk d) = Exited k \<Longrightarrow> k = 1"
proof (induction tk d rule: finish_induct [where Q = Q and R = R and bh = bh])
  case (turn tk d)
  obtain r d1 evs where s: "resume Q R bh tk d = (r, d1, evs)" by (cases "resume Q R bh tk d")
  from s show ?case
  proof (cases rule: finish_cases)
    case (awaits tk')
    with turn.IH [of tk' d1 evs] turn.prems s show ?thesis by simp
  next
    case (exits k')
    with resume_exit_status [of Q R bh tk d k' d1 evs] s turn.prems show ?thesis by simp
  qed (use turn.prems in simp_all)
qed

lemma drain_tasks_ends:
  "completion_of (drain_tasks Q R bh ts d) = Returned \<or>
   completion_of (drain_tasks Q R bh ts d) = Exited 1"
proof (induction ts arbitrary: d)
  case Nil
  then show ?case by simp
next
  case (Cons x ts)
  show ?case
  proof (cases x)
    case None
    with Cons show ?thesis by simp
  next
    case (Some tk)
    show ?thesis
    proof (cases rule: drain_tasks_cases [of Q R bh tk d ts])
      case (returned d1 evs)
      with Cons [of d1] Some show ?thesis by simp
    next
      case (rejected e d1 evs)
      with Some show ?thesis by (simp add: finish_catch_def)
    next
      case (exited k d1 evs)
      with finish_exit_status [of Q R bh tk d k] Some show ?thesis by simp
    qed
  qed
qed

text \<open>
  The joined tasks end in one of two ways: every task has resolved and the handler of
  \<^verbatim>\<open>catch\<close> was never called, or the process has exited with status 1.
\<close>

lemma settle_ends:
  "(completion_of (settle Q R bh S ts h d) = Returned \<and> h = NotCalled) \<or>
   completion_of (settle Q R bh S ts h d) = Exited 1"
proof (induction S arbitrary: ts h d)
  case Nil
  show ?case
    using drain_tasks_ends [of Q R bh ts d]
    by (cases h) (simp_all add: drain_def finish_catch_def)
next
  case (Cons a S)
  show ?case
  proof (cases rule: settle_cases [of Q R bh a S ts h d])
    case skip
    with Cons [of ts h d] show ?thesis by simp
  next
    case rollback
    with Cons [of ts AwaitRollback "snd (Q ROLLBACK d)"] show ?thesis by simp
  next
    case sleep
    with Cons [of ts Sleeping d] show ?thesis by simp
  next
    case exit
    then show ?thesis by simp
  next
    case (awaits i tk tk' d1 evs)
    with Cons [of "ts[i := Some tk']" h d1] show ?thesis by simp
  next
    case (resolves i tk d1 evs)
    with Cons [of "ts[i := None]" h d1] show ?thesis by simp
  next
    case (rejects i tk e d1 evs)
    with Cons [of "ts[i := None]" "if h = NotCalled then Called else h" d1] show ?thesis
      by (simp split: if_splits)
  next
    case (exits i tk k d1 evs)
    with resume_exit_status [of Q R bh tk d k d1 evs] show ?thesis by simp
  qed
qed


subsection \<open>The statements of the transactions\<close>

lemma statements_in_append [simp]:
  "statements_in (evs @ evs') = statements_in evs @ statements_in evs'"
  by (induction evs rule: statements_in.induct) simp_all



















subsection \<open>A session that takes every insert\<close>





lemma catch_event_simps [simp]:
  "catch_event (Sql q) = (q = ROLLBACK)"
  "catch_event (Sleep n) = (n = 1000)"
  "catch_event Release = False"
  "catch_event (SetDecodedLog k l) = False"
  "catch_event (NodeGetTransactionReceipt h) = False"
  "catch_event (Log INFO s) = False"
  "catch_event (Log ERROR ''No result returned for'') = False"
  "catch_event (Log ERROR ''transaction'') = False"
  "catch_event (Log ERROR ''^^ No result returned in block ^^'') = False"
  "catch_event (Log ERROR ''** Could not store log'') = False"
  "catch_event (Log ERROR ''Promises failed for retrieving all block data'') = True"
  "catch_event (Log ERROR ''Error:'') = True"
  by (simp_all add: catch_event_def)






lemma filter_catch_rest [simp]: "filter catch_event (catch_rest h) = catch_rest h"
  by (cases h) (simp_all add: catch_rest_def)








subsection \<open>What \<^verbatim>\<open>storeBlockAssocData\<close> can emit\<close>

lemma addOmmers_run:
  "addOmmers Q m h os d =
     (Returned, replay Q d (map (\<lambda>om. Sql (addOmmer (blockchain_id m) om h)) os),
      map (\<lambda>om. Sql (addOmmer (blockchain_id m) om h)) os)"
  by (induction os arbitrary: d) (simp_all add: run_query_def)

text \<open>The shape of a run of the joined tasks.\<close>

lemma promises_run:
  "promises Q R S m b d =
     after (map (\<lambda>om. Sql (addOmmer (blockchain_id m) om (hash b))) (ommers_of b)
            @ map (\<lambda>t. NodeGetTransactionReceipt (tx_hash t)) (transactions b))
       (settle Q R (hash b) S (map (\<lambda>t. Some (AwaitReceipt t)) (transactions b)) NotCalled
          (replay Q d (map (\<lambda>om. Sql (addOmmer (blockchain_id m) om (hash b))) (ommers_of b))))"
  by (simp add: promises_def ommers_of_def addOmmers_run split: option.split)

lemma promises_promise: "list_all promise_event (events_of (promises Q R S m b d))"
proof -
  have "list_all promise_event (map (\<lambda>om. Sql (addOmmer (blockchain_id m) om (hash b))) os)" for os
    by (induction os) (simp_all add: promise_event_def)
  moreover have "list_all promise_event (map (\<lambda>t. NodeGetTransactionReceipt (tx_hash t)) ts)"
    for ts :: "transaction list"
    by (induction ts) (simp_all add: promise_event_def)
  ultimately show ?thesis
    unfolding promises_run by (simp add: settle_promise)
qed

lemma promises_ends:
  "completion_of (promises Q R S m b d) = Returned \<or>
   completion_of (promises Q R S m b d) = Exited 1"
  unfolding promises_run
  using settle_ends [of Q R "hash b" S "map (\<lambda>t. Some (AwaitReceipt t)) (transactions b)" NotCalled]
  by auto

lemma mainLoop_persist: "list_all persist_event (events_of (mainLoop m n d))"
  by (simp add: mainLoop_def split: option.split)

lemma blockAlreadyExists_persist:
  "list_all persist_event (events_of (blockAlreadyExists m n d))"
  by (simp add: blockAlreadyExists_def mainLoop_persist)

lemma task_event_persist: "task_event ev \<Longrightarrow> persist_event ev"
  by (cases ev rule: task_event.cases) simp_all

lemma promise_event_persist: "promise_event ev \<Longrightarrow> persist_event ev"
  by (auto simp: promise_event_def task_event_persist)

lemma promise_events_persist: "list_all promise_event evs \<Longrightarrow> list_all persist_event evs"
  by (induction evs) (simp_all add: promise_event_persist)

lemma promises_persist: "list_all persist_event (events_of (promises Q R S m b d))"
  by (rule promise_events_persist) (rule promises_promise)

lemma storeBlockAssocData_persist:
  "list_all persist_event (events_of (storeBlockAssocData Q R S m cbs b d))"
  unfolding storeBlockAssocData_def
  by (intro and_then_events)
     (simp_all add: promises_persist moveToNextBlock_def mainLoop_persist)

lemma persist_no_cycle: "list_all persist_event evs \<Longrightarrow> count_list evs CycleNodes = 0"
  by (induction evs) auto

subsection \<open>The error test\<close>

lemma indexOf_from_sublist: "0 \<le> i \<Longrightarrow> (indexOf_from s p i \<noteq> -1) = sublist p s"
proof (induction s arbitrary: i)
  case Nil
  then show ?case by auto
next
  case (Cons c cs)
  from Cons.prems have "0 \<le> i + 1" by simp
  from Cons.IH [OF this] Cons.prems show ?case
    by (auto simp: sublist_Cons_right)
qed

lemma indexOf_sublist: "(indexOf s p \<noteq> -1) = sublist p s"
  by (simp add: indexOf_def indexOf_from_sublist)

lemma node_is_down_sublist:
  "node_is_down e \<longleftrightarrow>
     sublist ''Invalid JSON RPC response'' e \<or> sublist ''CONNECTION TIMEOUT'' (toUpperCase e)"
  unfolding node_is_down_def indexOf_sublist by (rule refl)

lemma timeout_text_is_down: "node_is_down ''Error: connection timeout: timeout of 750 ms achived'' = True"
  by code_simp

lemma invalid_response_text_is_down: "node_is_down ''Error: Invalid JSON RPC response: undefined'' = True"
  by code_simp

text \<open>
  C3, as the code has it: for an error delivered to a call of \<^verbatim>\<open>getBlock\<close> that has not
  recovered yet, if \<^verbatim>\<open>String(err)\<close> contains \<^verbatim>\<open>Invalid JSON RPC response\<close> in exactly
  this spelling, or its upper-casing contains \<^verbatim>\<open>CONNECTION TIMEOUT\<close>, the fetcher logs,
  calls \<^verbatim>\<open>cycleNodes\<close> and re-enters the cursor loop at the same height \<open>n\<close>; for any
  other error it logs, sleeps 2500 ms and exits with status 1. Only the second phrase
  is matched without regard to case.
\<close>

theorem getBlock_error_classification:
  "getBlock_callback Q R S cbs n \<lparr> err = Some e, fetched = blk \<rparr> False m d =
     (if sublist ''Invalid JSON RPC response'' e \<or> sublist ''CONNECTION TIMEOUT'' (toUpperCase e)
      then (True, m,
            after [Log ERROR ''** JSON RPC or connection timeout failure, cycling to next node **'',
                   CycleNodes]
              (mainLoop m n d))
      else (False, m, Exited 1, d, [Log ERROR ''Unknown error:'', Sleep 2500]))"
  by (simp add: getBlock_callback_def node_is_down_sublist)

theorem getBlock_error_classification_witness:
  "getBlock_callback session_query (\<lambda>h. ReceiptNull) [] mainLoop_callbacks 1000
     \<lparr> err = Some ''Error: connection timeout: timeout of 750 ms achived'', fetched = None \<rparr> False
     (CacheMonitor 1 None None) empty_database =
   (True, CacheMonitor 1 None None, Returned, empty_database,
    [Log ERROR ''** JSON RPC or connection timeout failure, cycling to next node **'',
     CycleNodes, MainLoop 1000, NodeGetBlock 1000 mainLoop_callbacks])"
  using getBlock_error_classification [of session_query "\<lambda>h. ReceiptNull" "[]" mainLoop_callbacks 1000
      "''Error: connection timeout: timeout of 750 ms achived''" None "CacheMonitor 1 None None"
      empty_database]
    timeout_text_is_down
  by (simp add: node_is_down_sublist mainLoop_def CacheMonitor_def)

text \<open>
  C3 as stated fails: an error whose text has the first phrase in lower case contains it
  when case is disregarded, and the fetcher exits instead of cycling.
\<close>

theorem getBlock_error_case_counterexample:
  "sublist (toUpperCase ''Invalid JSON RPC response'') (toUpperCase ''Error: invalid json rpc response'')
   \<and> getBlock_callback session_query (\<lambda>h. ReceiptNull) [] mainLoop_callbacks 1000
        \<lparr> err = Some ''Error: invalid json rpc response'', fetched = None \<rparr> False
        (CacheMonitor 1 None None) empty_database
      = (False, CacheMonitor 1 None None, Exited 1, empty_database,
         [Log ERROR ''Unknown error:'', Sleep 2500])"
  by code_simp

subsection \<open>The review scheduler\<close>

lemma review_loop_upto: "review_loop cbs p n = map (\<lambda>k. NodeGetBlock k cbs) [p..n - 2]"
proof (induction cbs p n rule: review_loop.induct)
  case (1 cbs p n)
  show ?case
  proof (cases "p < n - 1")
    case True
    then have "[p..n - 2] = p # [p + 1..n - 2]" by (simp add: upto_rec1)
    with True 1 show ?thesis by (subst review_loop.simps) simp
  next
    case False
    then show ?thesis by (subst review_loop.simps) simp
  qed
qed

text \<open>
  C4: an idle head poll at cursor \<open>n\<close> (no error, no block, the handlers of the cursor
  loop) increments the review counter by one. When the incremented counter is divisible
  by 250 the scheduler logs, launches a fetch without handlers for each of the heights
  \<open>n - 100, ..., n - 2\<close> in ascending order and sleeps 15000 ms; otherwise it launches a
  fetch with the review handler for each of \<open>n - 15, ..., n - 2\<close> and sleeps 2500 ms.
  Then it re-enters the cursor loop at \<open>n\<close>.
\<close>

theorem atBlockchainHead_schedule:
  "getBlock_callback Q R S mainLoop_callbacks n \<lparr> err = None, fetched = None \<rparr> flag
     ((CacheMonitor bid so eo)\<lparr>comprehensiveReviewCounter := c\<rparr>) d =
   (let m' = (CacheMonitor bid so eo)\<lparr>comprehensiveReviewCounter := c + 1\<rparr> in
    (flag, m',
     if (c + 1) mod 250 = 0
     then after
            (Log INFO ''Performing a comprehensive review of the last blocks.''
             # map (\<lambda>p. NodeGetBlock p comprehensive_review_callbacks) [n - 100..n - 2]
             @ [Sleep 15000])
            (mainLoop m' n d)
     else after
            (map (\<lambda>p. NodeGetBlock p review_callbacks) [n - 15..n - 2] @ [Sleep 2500])
            (mainLoop m' n d)))"
  by (simp add: getBlock_callback_def atBlockchainHead_def mainLoop_callbacks_def
      CacheMonitor_def review_loop_upto Let_def)

theorem atBlockchainHead_schedule_witness:
  "getBlock_callback session_query (\<lambda>h. ReceiptNull) [] mainLoop_callbacks 4
     \<lparr> err = None, fetched = None \<rparr> False (CacheMonitor 1 None None) empty_database =
   (False, (CacheMonitor 1 None None)\<lparr>comprehensiveReviewCounter := 1\<rparr>, Returned, empty_database,
    map (\<lambda>p. NodeGetBlock p review_callbacks) [-11, -10, -9, -8, -7, -6, -5, -4, -3, -2, -1, 0, 1, 2]
    @ [Sleep 2500, MainLoop 4, NodeGetBlock 4 mainLoop_callbacks])"
  using atBlockchainHead_schedule [of session_query "\<lambda>h. ReceiptNull" "[]" 4 False 0 1 None None
      empty_database]
  by (simp add: mainLoop_def CacheMonitor_def upto_rec1 Let_def)

subsection \<open>One failover for each fetch\<close>

lemma store_new_block_no_cycle:
  "count_list (events_of (store_new_block Q R S m cbs b d)) CycleNodes = 0"
  by (simp add: store_new_block_def Let_def
      persist_no_cycle [OF storeBlockAssocData_persist] split: prod.split)

lemma check_height_total_no_cycle:
  "count_list (events_of (check_height_total Q R S m cbs n b d)) CycleNodes = 0"
  by (simp add: check_height_total_def Let_def
      persist_no_cycle [OF storeBlockAssocData_persist]
      persist_no_cycle [OF blockAlreadyExists_persist]
      split: prod.split option.split list.split)

lemma reconcile_no_cycle:
  "count_list (events_of (reconcile Q R S m cbs n b d)) CycleNodes = 0"
  by (simp add: reconcile_def Let_def
      persist_no_cycle [OF storeBlockAssocData_persist]
      store_new_block_no_cycle check_height_total_no_cycle
      split: prod.split option.split list.split)

lemma review_loop_no_cycle: "count_list (review_loop cbs p n) CycleNodes = 0"
  by (simp add: review_loop_upto count_list_0_iff image_iff)

lemma atBlockchainHead_no_cycle:
  "count_list (events_of (snd (atBlockchainHead m n d))) CycleNodes = 0"
  by (simp add: atBlockchainHead_def Let_def review_loop_no_cycle
      persist_no_cycle [OF mainLoop_persist])

text \<open>
  One delivery: the callback calls \<^verbatim>\<open>cycleNodes\<close> exactly when it turns the flag from
  \<^verbatim>\<open>false\<close> to \<^verbatim>\<open>true\<close>, and it never turns the flag back.
\<close>

lemma getBlock_callback_cycles:
  assumes "getBlock_callback Q R S cbs n dl flag m d = (flag', m', r)"
  shows "count_list (events_of r) CycleNodes + of_bool flag = (of_bool flag' :: nat)"
proof (cases "err dl")
  case (Some e)
  with assms show ?thesis
    by (auto simp: getBlock_callback_def persist_no_cycle [OF mainLoop_persist]
        split: if_splits)
next
  case None
  note noerr = this
  show ?thesis
  proof (cases "fetched dl")
    case None
    with noerr assms atBlockchainHead_no_cycle [of m n d] show ?thesis
      by (auto simp: getBlock_callback_def split: if_splits prod.splits)
  next
    case (Some b)
    with noerr assms reconcile_no_cycle [of Q R S m cbs n b d] show ?thesis
      by (auto simp: getBlock_callback_def)
  qed
qed

lemma getBlock_deliveries_cycles:
  "count_list (events_of (snd (getBlock_deliveries Q R S cbs n dls flag m d))) CycleNodes
     + of_bool flag \<le> (1::nat)"
proof (induction dls arbitrary: flag m d)
  case Nil
  then show ?case by simp
next
  case (Cons dl dls)
  obtain flag' m' c d' evs
    where cb: "getBlock_callback Q R S cbs n dl flag m d = (flag', m', c, d', evs)"
    by (metis prod_cases5)
  from getBlock_callback_cycles [OF cb]
  have one: "count_list evs CycleNodes + of_bool flag = (of_bool flag' :: nat)" by simp
  show ?case
  proof (cases c)
    case Returned
    obtain m'' r where rest: "getBlock_deliveries Q R S cbs n dls flag' m' d' = (m'', r)"
      by (cases "getBlock_deliveries Q R S cbs n dls flag' m' d'")
    from Cons.IH [of flag' m' d'] rest
    have "count_list (events_of r) CycleNodes + of_bool flag' \<le> (1::nat)" by simp
    with one cb Returned rest show ?thesis by (simp add:)
  next
    case (Exited k)
    with one cb show ?thesis by (cases flag') simp_all
  next
    case (Rejected e)
    with one cb show ?thesis by (cases flag') simp_all
  qed
qed

text \<open>
  C7: whatever the node client delivers to the callback of one call of \<^verbatim>\<open>getBlock\<close>,
  and however often, \<^verbatim>\<open>cycleNodes\<close> is called at most once. When it delivers a transient
  error twice, the first delivery cycles and re-enters the cursor loop at \<open>n\<close> (where
  the process exits if the end override is reached), and the second is only logged: no
  second \<^verbatim>\<open>cycleNodes\<close>, no second entry of the loop.
\<close>

theorem getBlock_cycles_at_most_once:
  "count_list (events_of (snd (getBlock Q R S cbs n dls m d))) CycleNodes \<le> 1
   \<and> (node_is_down e1 \<and> node_is_down e2 \<longrightarrow>
        getBlock Q R S cbs n [\<lparr> err = Some e1, fetched = b1 \<rparr>, \<lparr> err = Some e2, fetched = b2 \<rparr>] m d =
          (m, if (case endBlockOverride m of None \<Rightarrow> False | Some e \<Rightarrow> e \<le> n)
              then (Exited 0, d,
                    [Log ERROR ''** JSON RPC or connection timeout failure, cycling to next node **'',
                     CycleNodes, MainLoop n, Log INFO ''Reached endBlockOverride:''])
              else (Returned, d,
                    [Log ERROR ''** JSON RPC or connection timeout failure, cycling to next node **'',
                     CycleNodes, MainLoop n, NodeGetBlock n mainLoop_callbacks,
                     Log ERROR ''** Received duplicate local timeout or JSON RPC error, already cycled **''])))"
proof -
  have "count_list (events_of (snd (getBlock Q R S cbs n dls m d))) CycleNodes \<le> 1"
    using getBlock_deliveries_cycles [of Q R S cbs n dls False m d] by (simp add: getBlock_def)
  moreover have "node_is_down e1 \<and> node_is_down e2 \<longrightarrow>
        getBlock Q R S cbs n [\<lparr> err = Some e1, fetched = b1 \<rparr>, \<lparr> err = Some e2, fetched = b2 \<rparr>] m d =
          (m, if (case endBlockOverride m of None \<Rightarrow> False | Some e \<Rightarrow> e \<le> n)
              then (Exited 0, d,
                    [Log ERROR ''** JSON RPC or connection timeout failure, cycling to next node **'',
                     CycleNodes, MainLoop n, Log INFO ''Reached endBlockOverride:''])
              else (Returned, d,
                    [Log ERROR ''** JSON RPC or connection timeout failure, cycling to next node **'',
                     CycleNodes, MainLoop n, NodeGetBlock n mainLoop_callbacks,
                     Log ERROR ''** Received duplicate local timeout or JSON RPC error, already cycled **'']))"
    by (auto simp: getBlock_def getBlock_callback_def mainLoop_def split: option.split)
  ultimately show ?thesis by blast
qed

theorem getBlock_cycles_at_most_once_witness:
  "count_list
     (events_of (snd (getBlock session_query (\<lambda>h. ReceiptNull) [] mainLoop_callbacks 1000
        [\<lparr> err = Some ''Error: Invalid JSON RPC response: undefined'', fetched = None \<rparr>,
         \<lparr> err = Some ''Error: connection timeout: timeout of 750 ms achived'', fetched = None \<rparr>]
        (CacheMonitor 1 None None) empty_database))) CycleNodes \<le> 1
   \<and> getBlock session_query (\<lambda>h. ReceiptNull) [] mainLoop_callbacks 1000
        [\<lparr> err = Some ''Error: Invalid JSON RPC response: undefined'', fetched = None \<rparr>,
         \<lparr> err = Some ''Error: connection timeout: timeout of 750 ms achived'', fetched = None \<rparr>]
        (CacheMonitor 1 None None) empty_database =
      (CacheMonitor 1 None None, Returned, empty_database,
       [Log ERROR ''** JSON RPC or connection timeout failure, cycling to next node **'',
        CycleNodes, MainLoop 1000, NodeGetBlock 1000 mainLoop_callbacks,
        Log ERROR ''** Received duplicate local timeout or JSON RPC error, already cycled **''])"
  using getBlock_cycles_at_most_once [of session_query "\<lambda>h. ReceiptNull" "[]" mainLoop_callbacks 1000
      "[\<lparr> err = Some ''Error: Invalid JSON RPC response: undefined'', fetched = None \<rparr>,
        \<lparr> err = Some ''Error: connection timeout: timeout of 750 ms achived'', fetched = None \<rparr>]"
      "CacheMonitor 1 None None" empty_database
      "''Error: Invalid JSON RPC response: undefined''"
      "''Error: connection timeout: timeout of 750 ms achived''" None None]
    timeout_text_is_down invalid_response_text_is_down
  by (simp add: CacheMonitor_def)

subsection \<open>Facts about the example data\<close>

lemma stored_7_by_hash:
  "session_query (getBlockByHash 1 ''0xb7'') stored_7 =
     (Some \<lparr> rowCount = 1, rows = [3] \<rparr>, stored_7)"
  by code_simp

lemma stored_7_height_count:
  "session_query (getBlockTransactionCount 1 7) stored_7 =
     (Some \<lparr> rowCount = 1, rows = [3] \<rparr>, stored_7)"
  by code_simp

lemma stored_7_uncled_by_hash:
  "session_query (getBlockByHash 1 ''0xb7'') stored_7_uncled =
     (Some \<lparr> rowCount = 1, rows = [3] \<rparr>, stored_7_uncled)"
  by code_simp

lemma stored_7_uncled_height_count:
  "session_query (getBlockTransactionCount 1 7) stored_7_uncled =
     (Some \<lparr> rowCount = 1, rows = [4] \<rparr>, stored_7_uncled)"
  by code_simp

lemma stored_7_partial_by_hash:
  "session_query (getBlockByHash 1 ''0xb7'') stored_7_partial =
     (Some \<lparr> rowCount = 1, rows = [2] \<rparr>, stored_7_partial)"
  by code_simp

lemma block_7_fields:
  "hash block_7 = ''0xb7''" "number block_7 = 7" "length (transactions block_7) = 3"
  by (simp_all add: block_7_def)

lemma CacheMonitor_id: "blockchain_id (CacheMonitor bid so eo) = bid"
  by (simp add: CacheMonitor_def)

subsection \<open>Inserts that come back without a row\<close>

lemma getTransaction_logs_never_exits:
  "completion_of (getTransaction_logs Q h ls d) \<noteq> Exited k"
  by (induction ls arbitrary: d) (simp_all split: prod.split option.split list.split)

text \<open>
  C8: in \<^verbatim>\<open>getTransaction\<close>, when the receipt is there and the transaction insert comes
  back without a result or with \<^verbatim>\<open>rowCount\<close> 0, the session is released, three errors
  are logged and the process exits with status 1, with nothing else sent. When a log
  insert comes back without a row, one error is logged and the loop goes on with the
  next log from the database the insert left. The loop over the logs never exits the
  process.
\<close>

theorem insert_without_row_transaction_fatal_log_skipped:
  "(R (tx_hash t) = ReceiptOf rc \<and>
    no_rows (fst (Q (addTransaction bh t (status_or_null (status rc))
                       (address_or_null (contractAddress rc))) d)) \<longrightarrow>
      getTransaction Q R bh t d =
        (Exited 1,
         snd (Q (addTransaction bh t (status_or_null (status rc))
                   (address_or_null (contractAddress rc))) d),
         [NodeGetTransactionReceipt (tx_hash t),
          Sql (addTransaction bh t (status_or_null (status rc))
                 (address_or_null (contractAddress rc))),
          Release, Log ERROR ''No result returned for'', Log ERROR ''transaction'',
          Log ERROR ''^^ No result returned in block ^^'']))
   \<and> (no_rows (fst (Q (addLog h l) d)) \<longrightarrow>
        getTransaction_logs Q h (l # ls) d =
          after [Sql (addLog h l), Log ERROR ''** Could not store log'']
            (getTransaction_logs Q h ls (snd (Q (addLog h l) d))))
   \<and> completion_of (getTransaction_logs Q h ls d) \<noteq> Exited k"
  by (auto simp: getTransaction_def Let_def getTransaction_logs_never_exits split: prod.split)

theorem insert_without_row_witness:
  "getTransaction (refusing transaction_or_log_insert session_query) receipts_all ''0xb7'' tx_a
     empty_database =
     (Exited 1, empty_database,
      [NodeGetTransactionReceipt ''0xa1'',
       Sql (addTransaction ''0xb7'' tx_a (Some True) None),
       Release, Log ERROR ''No result returned for'', Log ERROR ''transaction'',
       Log ERROR ''^^ No result returned in block ^^''])
   \<and> getTransaction_logs (refusing transaction_or_log_insert session_query) ''0xa1''
        (transfer_log # [transfer_log]) empty_database =
       (Returned, empty_database,
        [Sql (addLog ''0xa1'' transfer_log), Log ERROR ''** Could not store log'',
         Sql (addLog ''0xa1'' transfer_log), Log ERROR ''** Could not store log''])
   \<and> completion_of (getTransaction_logs (refusing transaction_or_log_insert session_query) ''0xa1''
        [transfer_log] empty_database) \<noteq> Exited 1"
  using insert_without_row_transaction_fatal_log_skipped [where R = receipts_all and t = tx_a
      and rc = "\<lparr> status = True, contractAddress = None, logs = Some [transfer_log] \<rparr>"
      and Q = "refusing transaction_or_log_insert session_query" and bh = "''0xb7''"
      and d = empty_database and h = "''0xa1''" and l = transfer_log and ls = "[transfer_log]"
      and k = 1]
  by (simp add: receipts_all_def tx_a_def refusing_def no_rows_def done_with_def
      status_or_null_def address_or_null_def)

lemma finish_logs:
  "finish Q R bh (AwaitDeleteLogs t ls) d = getTransaction_logs Q (tx_hash t) ls d
   \<and> finish Q R bh (AwaitDecoder t ls) d = getTransaction_logs Q (tx_hash t) ls d"
proof (induction ls arbitrary: d)
  case Nil
  show ?case
    by (simp add: finish_turn [of Q R bh _ d Resolves d "[]"] next_log_def)
next
  case (Cons l ls)
  obtain res d1 where q: "Q (addLog (tx_hash t) l) d = (res, d1)"
    by (cases "Q (addLog (tx_hash t) l) d")
  let ?G = "getTransaction_logs Q (tx_hash t) ls d1"
  have dec: "finish Q R bh (AwaitDecoder t ls) d1 = ?G"
    using Cons [of d1] by simp
  have lg: "finish Q R bh (AwaitLog t l ls res) d1 =
      (if no_rows res then after [Log ERROR ''** Could not store log''] ?G
       else (case res of
               None \<Rightarrow> (Rejected ''TypeError'', d1, [])
             | Some r \<Rightarrow>
                 (case rows r of
                    [] \<Rightarrow> (Rejected ''TypeError'', d1, [])
                  | log_id # _ \<Rightarrow> after [SetDecodedLog log_id l] ?G)))"
  proof (cases "no_rows res")
    case True
    obtain r d2 evs where n: "next_log Q t ls d1 = (r, d2, evs)" by (cases "next_log Q t ls d1")
    have "finish Q R bh (AwaitLog t l ls res) d1 =
            after [Log ERROR ''** Could not store log''] (finish Q R bh (AwaitDecoder t ls) d1)"
      using finish_turn [of Q R bh "AwaitLog t l ls res" d1 r d2 "Log ERROR ''** Could not store log'' # evs"]
        finish_turn [of Q R bh "AwaitDecoder t ls" d1 r d2 evs] True n
      by (cases r) simp_all
    with True dec show ?thesis by simp
  next
    case False
    show ?thesis
    proof (cases res)
      case None
      with False show ?thesis by (simp add: no_rows_def)
    next
      case (Some r)
      show ?thesis
      proof (cases "rows r")
        case Nil
        with False Some show ?thesis
          by (simp add: finish_turn [of Q R bh _ d1 "Rejects ''TypeError''" d1 "[]"])
      next
        case (Cons log_id ids)
        with False Some dec show ?thesis
          by (simp add: finish_turn [of Q R bh _ d1 "Awaits (AwaitDecoder t ls)" d1 "[SetDecodedLog log_id l]"])
      qed
    qed
  qed
  have "finish Q R bh tk d = after [Sql (addLog (tx_hash t) l)] (finish Q R bh (AwaitLog t l ls res) d1)"
    if "tk = AwaitDeleteLogs t (l # ls) \<or> tk = AwaitDecoder t (l # ls)" for tk
    using that q
    by (auto simp: finish_turn [of Q R bh _ d "Awaits (AwaitLog t l ls res)" d1 "[Sql (addLog (tx_hash t) l)]"]
        next_log_def)
  with lg q show ?case
    by (auto split: option.split list.split)
qed

text \<open>
  A task that takes its turns with nothing in between runs as \<^verbatim>\<open>getTransaction\<close> does
  on its own.
\<close>

lemma getTransaction_turns:
  "getTransaction Q R bh t d =
     after [NodeGetTransactionReceipt (tx_hash t)] (finish Q R bh (AwaitReceipt t) d)"
proof (cases "R (tx_hash t)")
  case (ReceiptRejected e)
  then show ?thesis
    by (simp add: getTransaction_def finish_turn [of Q R bh _ d "Rejects e" d "[]"])
next
  case ReceiptNull
  then show ?thesis
    by (simp add: getTransaction_def
        finish_turn [of Q R bh _ d Resolves d "[Log INFO ''Transaction receipt not found for block.'']"])
next
  case (ReceiptOf rc)
  let ?q = "addTransaction bh t (status_or_null (status rc)) (address_or_null (contractAddress rc))"
  let ?del = "deleteLogsByTransactionHash (tx_hash t)"
  obtain res d1 where q: "Q ?q d = (res, d1)" by (cases "Q ?q d")
  have ins: "finish Q R bh (AwaitInsert t rc res) d1 =
      (if no_rows res
       then (Exited 1, d1,
             [Release, Log ERROR ''No result returned for'', Log ERROR ''transaction'',
              Log ERROR ''^^ No result returned in block ^^''])
       else (case logs rc of
               None \<Rightarrow> (Returned, d1, [])
             | Some ls \<Rightarrow>
                 if ls = [] then (Returned, d1, [])
                 else and_then (run_query Q ?del d1) (getTransaction_logs Q (tx_hash t) ls)))"
  proof (cases "no_rows res")
    case True
    then show ?thesis
      by (simp add: finish_turn [of Q R bh _ d1 "ExitsProcess 1" d1
            "[Release, Log ERROR ''No result returned for'', Log ERROR ''transaction'',
              Log ERROR ''^^ No result returned in block ^^'']"])
  next
    case False
    show ?thesis
    proof (cases "logs rc")
      case None
      with False show ?thesis by (simp add: finish_turn [of Q R bh _ d1 Resolves d1 "[]"])
    next
      case (Some ls)
      show ?thesis
      proof (cases "ls = []")
        case True
        with False Some show ?thesis by (simp add: finish_turn [of Q R bh _ d1 Resolves d1 "[]"])
      next
        case nonempty: False
        with False Some show ?thesis
          by (simp add: finish_turn [of Q R bh _ d1 "Awaits (AwaitDeleteLogs t ls)" "snd (Q ?del d1)" "[Sql ?del]"]
              finish_logs run_query_def)
      qed
    qed
  qed
  from ReceiptOf q ins show ?thesis
    by (simp add: getTransaction_def Let_def
        finish_turn [of Q R bh _ d "Awaits (AwaitInsert t rc res)" d1 "[Sql ?q]"])
qed

subsection \<open>A receipt that is not there yet\<close>

lemma storeBlockAssocData_shape:
  "storeBlockAssocData Q R S m cbs b d =
     (case promises Q R S m b
             (snd (Q (deleteTransactions (blockchain_id m) (number b))
               (snd (Q (deleteLogs (blockchain_id m) (number b)) (snd (Q BEGIN d)))))) of
        (Returned, d4, mid) \<Rightarrow>
          after ([Sql BEGIN, Sql (deleteLogs (blockchain_id m) (number b)),
                  Sql (deleteTransactions (blockchain_id m) (number b))] @ mid @ [Sql COMMIT])
            (if has_moveToNextBlock cbs then moveToNextBlock m (number b) (snd (Q COMMIT d4))
             else (Returned, snd (Q COMMIT d4), []))
      | (Exited k, d4, mid) \<Rightarrow>
          (Exited k, d4,
           [Sql BEGIN, Sql (deleteLogs (blockchain_id m) (number b)),
            Sql (deleteTransactions (blockchain_id m) (number b))] @ mid)
      | (Rejected e, d4, mid) \<Rightarrow>
          (Rejected e, d4,
           [Sql BEGIN, Sql (deleteLogs (blockchain_id m) (number b)),
            Sql (deleteTransactions (blockchain_id m) (number b))] @ mid))"
proof -
  let ?d3 = "snd (Q (deleteTransactions (blockchain_id m) (number b))
               (snd (Q (deleteLogs (blockchain_id m) (number b)) (snd (Q BEGIN d)))))"
  obtain c d4 mid where p: "promises Q R S m b ?d3 = (c, d4, mid)"
    by (cases "promises Q R S m b ?d3")
  show ?thesis
    unfolding storeBlockAssocData_def
    by (cases c) (simp_all add: run_query_def p)
qed

lemma statements_in_ommers [simp]:
  "statements_in (map (\<lambda>om. Sql (addOmmer bid om h)) os) = []"
  by (induction os) simp_all

lemma statements_in_requests [simp]:
  "statements_in (map (\<lambda>t. NodeGetTransactionReceipt (tx_hash t)) ts) = []"
  for ts :: "transaction list"
  by (induction ts) simp_all

lemma statements_in_mainLoop [simp]: "statements_in (events_of (mainLoop m n d)) = []"
  by (simp add: mainLoop_def split: option.split)
















lemma partial_run:
  "storeBlockAssocData session_query receipts_b_missing
     [Task 2, Task 0, Task 1, Task 0, Task 2] (CacheMonitor 1 None None)
     mainLoop_callbacks block_7 empty_database =
   (Returned,
    \<lparr> stored =
        \<lparr> block_rows = [], ommer_rows = [(1, ''0xe1'', ''0xb7'')],
          transaction_rows =
            [(''0xb7'', tx_c, Some True, None), (''0xb7'', tx_a, Some True, None)],
          log_rows = [(1, ''0xa1'', transfer_log)] \<rparr>,
      open_transaction = None, next_log_id = 2 \<rparr>,
    [Sql BEGIN, Sql (deleteLogs 1 7), Sql (deleteTransactions 1 7),
     Sql (addOmmer 1 ''0xe1'' ''0xb7''),
     NodeGetTransactionReceipt ''0xa1'', NodeGetTransactionReceipt ''0xa2'',
     NodeGetTransactionReceipt ''0xa3'',
     Sql (addTransaction ''0xb7'' tx_c (Some True) None),
     Sql (addTransaction ''0xb7'' tx_a (Some True) None),
     Log INFO ''Transaction receipt not found for block.'',
     Sql (deleteLogsByTransactionHash ''0xa1''),
     Sql (addLog ''0xa1'' transfer_log),
     SetDecodedLog 1 transfer_log,
     Sql COMMIT, MainLoop 8, NodeGetBlock 8 mainLoop_callbacks])"
  by (simp add: storeBlockAssocData_def moveToNextBlock_def mainLoop_def
      promises_def drain_def finish.simps next_log_def run_query_def session_query_def done_with_def no_rows_def
      Let_def CacheMonitor_def block_7_def empty_database_def receipts_b_missing_def
      receipts_all_def tx_a_def tx_b_def tx_c_def transfer_log_def mainLoop_callbacks_def
      status_or_null_def address_or_null_def hashes_at_def transactions_at_def transactions_of_def
      del: set_map set_filter)



subsection \<open>The reconciler\<close>

text \<open>
  C10: when the look-up by hash returns a row whose transaction count equals the fetched
  one, the reconciler reads the first row of the height-wide count. If that result has no
  rows, the read throws a TypeError: nothing is stored again, and the only queries sent
  are the two look-ups. If the result has a first row, the read is safe: the block either
  counts as stored (truthy \<^verbatim>\<open>rowCount\<close> and equal count) or is stored again.
\<close>

theorem height_total_first_row:
  assumes "Q (getBlockByHash (blockchain_id m) (hash b)) d = (Some r1, d1)"
    and "rowCount r1 \<noteq> 0"
    and "rows r1 = int (length (transactions b)) # others"
    and "Q (getBlockTransactionCount (blockchain_id m) n) d1 = (Some r2, d2)"
  shows "(rows r2 = [] \<longrightarrow>
            getBlock_callback Q R S cbs n \<lparr> err = None, fetched = Some b \<rparr> flag m d =
              (flag, m, Rejected ''TypeError'', d2,
               [Sql (getBlockByHash (blockchain_id m) (hash b)),
                Sql (getBlockTransactionCount (blockchain_id m) n)]))
       \<and> (\<forall>count rest. rows r2 = count # rest \<longrightarrow>
            getBlock_callback Q R S cbs n \<lparr> err = None, fetched = Some b \<rparr> flag m d =
              (flag, m,
               after [Sql (getBlockByHash (blockchain_id m) (hash b)),
                      Sql (getBlockTransactionCount (blockchain_id m) n)]
                 (if rowCount r2 \<noteq> 0 \<and> int (length (transactions b)) = count
                  then (if has_blockAlreadyExists cbs then blockAlreadyExists m n d2
                        else (Returned, d2, []))
                  else after [Log INFO ''At block, found stale transactions.'']
                         (storeBlockAssocData Q R S m cbs b d2))))"
  using assms
  by (simp add: getBlock_callback_def reconcile_def check_height_total_def Let_def no_rows_def)

theorem height_total_first_row_witness:
  "getBlock_callback (refusing height_count session_query) receipts_all [] mainLoop_callbacks 7
     \<lparr> err = None, fetched = Some block_7 \<rparr> False (CacheMonitor 1 None None) stored_7 =
     (False, CacheMonitor 1 None None, Rejected ''TypeError'', stored_7,
      [Sql (getBlockByHash 1 ''0xb7''), Sql (getBlockTransactionCount 1 7)])
   \<and> getBlock_callback session_query receipts_all [] mainLoop_callbacks 7
       \<lparr> err = None, fetched = Some block_7 \<rparr> False (CacheMonitor 1 None None) stored_7_uncled =
     (False, CacheMonitor 1 None None,
      after [Sql (getBlockByHash 1 ''0xb7''), Sql (getBlockTransactionCount 1 7),
             Log INFO ''At block, found stale transactions.'']
        (storeBlockAssocData session_query receipts_all [] (CacheMonitor 1 None None)
           mainLoop_callbacks block_7 stored_7_uncled))"
  using height_total_first_row [where Q = "refusing height_count session_query"
      and m = "CacheMonitor 1 None None"
      and b = block_7 and d = stored_7 and ?d1.0 = stored_7 and ?d2.0 = stored_7
      and ?r1.0 = "\<lparr> rowCount = 1, rows = [3] \<rparr>" and ?r2.0 = "\<lparr> rowCount = 0, rows = [] \<rparr>"
      and others = "[]" and n = 7 and R = receipts_all and S = "[]" and cbs = mainLoop_callbacks and flag = False]
    height_total_first_row [where Q = session_query and m = "CacheMonitor 1 None None"
      and b = block_7 and d = stored_7_uncled and ?d1.0 = stored_7_uncled and ?d2.0 = stored_7_uncled
      and ?r1.0 = "\<lparr> rowCount = 1, rows = [3] \<rparr>" and ?r2.0 = "\<lparr> rowCount = 1, rows = [4] \<rparr>"
      and others = "[]" and n = 7 and R = receipts_all and S = "[]" and cbs = mainLoop_callbacks and flag = False]
    stored_7_by_hash stored_7_uncled_by_hash stored_7_uncled_height_count
  by (simp add: refusing_def done_with_def block_7_fields CacheMonitor_id)

text \<open>
  C5: when the look-up by hash returns a row whose transaction count equals the fetched
  one, and the height-wide count returns a row with the same count, both leaving the
  database as it is, then the two look-ups are the only queries sent and the database is
  unchanged, whoever called \<^verbatim>\<open>getBlock\<close>; with the handlers of the cursor loop,
  \<^verbatim>\<open>blockAlreadyExists\<close> logs and re-enters the loop at \<open>n + 1\<close>.
\<close>

theorem stored_block_in_order_is_skipped:
  assumes "Q (getBlockByHash (blockchain_id m) (hash b)) d = (Some r1, d)"
    and "rowCount r1 \<noteq> 0"
    and "rows r1 = int (length (transactions b)) # others1"
    and "Q (getBlockTransactionCount (blockchain_id m) n) d = (Some r2, d)"
    and "rowCount r2 \<noteq> 0"
    and "rows r2 = int (length (transactions b)) # others2"
  shows "getBlock_callback Q R S mainLoop_callbacks n \<lparr> err = None, fetched = Some b \<rparr> flag m d =
           (flag, m,
            after [Sql (getBlockByHash (blockchain_id m) (hash b)),
                   Sql (getBlockTransactionCount (blockchain_id m) n),
                   Log INFO ''Block with hash found, skipping.'']
              (mainLoop m (n + 1) d))
       \<and> db_of (snd (snd (getBlock_callback Q R S cbs n \<lparr> err = None, fetched = Some b \<rparr> flag m d))) = d
       \<and> filter is_query
            (events_of (snd (snd (getBlock_callback Q R S cbs n \<lparr> err = None, fetched = Some b \<rparr> flag m d)))) =
           [Sql (getBlockByHash (blockchain_id m) (hash b)),
            Sql (getBlockTransactionCount (blockchain_id m) n)]"
  using assms
  by (simp add: getBlock_callback_def reconcile_def check_height_total_def Let_def no_rows_def
      blockAlreadyExists_def mainLoop_callbacks_def mainLoop_def split: option.split)

theorem stored_block_in_order_is_skipped_witness:
  "getBlock_callback session_query receipts_all [] mainLoop_callbacks 7
     \<lparr> err = None, fetched = Some block_7 \<rparr> False (CacheMonitor 1 None None) stored_7 =
     (False, CacheMonitor 1 None None, Returned, stored_7,
      [Sql (getBlockByHash 1 ''0xb7''), Sql (getBlockTransactionCount 1 7),
       Log INFO ''Block with hash found, skipping.'', MainLoop 8, NodeGetBlock 8 mainLoop_callbacks])
   \<and> db_of (snd (snd (getBlock_callback session_query receipts_all [] review_callbacks 7
       \<lparr> err = None, fetched = Some block_7 \<rparr> False (CacheMonitor 1 None None) stored_7))) = stored_7
   \<and> filter is_query (events_of (snd (snd (getBlock_callback session_query receipts_all [] review_callbacks 7
       \<lparr> err = None, fetched = Some block_7 \<rparr> False (CacheMonitor 1 None None) stored_7)))) =
      [Sql (getBlockByHash 1 ''0xb7''), Sql (getBlockTransactionCount 1 7)]"
  using stored_block_in_order_is_skipped [where Q = session_query and m = "CacheMonitor 1 None None"
      and b = block_7 and d = stored_7
      and ?r1.0 = "\<lparr> rowCount = 1, rows = [3] \<rparr>" and ?r2.0 = "\<lparr> rowCount = 1, rows = [3] \<rparr>"
      and ?others1.0 = "[]" and ?others2.0 = "[]" and n = 7 and R = receipts_all and S = "[]"
      and cbs = review_callbacks and flag = False]
    stored_7_by_hash stored_7_height_count
  by (simp add: block_7_fields CacheMonitor_id mainLoop_def CacheMonitor_def)

subsection \<open>The fetcher changes the database only through its queries\<close>

lemma traced_getTransaction_logs: "traced Q d (getTransaction_logs Q h ls d)"
proof (induction ls arbitrary: d)
  case Nil
  then show ?case by simp
next
  case (Cons l ls)
  obtain res d1 where q: "Q (addLog h l) d = (res, d1)" by (cases "Q (addLog h l) d")
  from Cons [of d1] q show ?case
    by (auto simp: traced_def replay_append split: option.split list.split)
qed

lemma traced_getTransaction: "traced Q d (getTransaction Q R bh t d)"
proof (cases "R (tx_hash t)")
  case (ReceiptOf rc)
  let ?q = "addTransaction bh t (status_or_null (status rc)) (address_or_null (contractAddress rc))"
  obtain res d1 where q: "Q ?q d = (res, d1)" by (cases "Q ?q d")
  have "traced Q d1 (and_then (run_query Q (deleteLogsByTransactionHash (tx_hash t)) d1)
                       (getTransaction_logs Q (tx_hash t) ls))" for ls
    by (intro traced_and_then) (simp_all add: traced_getTransaction_logs)
  with ReceiptOf q show ?thesis
    by (auto simp: getTransaction_def Let_def traced_def replay_append split: option.split)
qed (simp_all add: getTransaction_def)

lemma traced_mainLoop: "traced Q d (mainLoop m n d)"
  by (simp add: mainLoop_def split: option.split)

lemma db_of_mainLoop: "db_of (mainLoop m k d) = d"
  by (simp add: mainLoop_def split: option.split)

lemma replay_mainLoop: "replay Q d' (events_of (mainLoop m k d)) = d'"
  by (simp add: mainLoop_def split: option.split)

lemma traced_storeBlockAssocData: "traced Q d (storeBlockAssocData Q R S m cbs b d)"
  unfolding storeBlockAssocData_def
  by (intro traced_and_then)
     (simp_all add: traced_promises moveToNextBlock_def traced_mainLoop)

subsection \<open>Storing a block again\<close>

lemma persist_event_no_block_write: "persist_event ev \<Longrightarrow> \<not> writes_block_row ev"
  by (cases ev rule: writes_block_row.cases) simp_all

lemma persist_events_no_block_write:
  "list_all persist_event evs \<Longrightarrow> list_all (\<lambda>ev. \<not> writes_block_row ev) evs"
  by (induction evs) (simp_all add: persist_event_no_block_write)

lemma replay_invariant:
  assumes "list_all (\<lambda>ev. \<not> writes_block_row ev) evs"
    and "\<And>q d. \<not> writes_block_row (Sql q) \<Longrightarrow> I d \<Longrightarrow> I (snd (Q q d))"
    and "I d"
  shows "I (replay Q d evs)"
  using assms(1,3)
proof (induction evs arbitrary: d)
  case Nil
  then show ?case by simp
next
  case (Cons ev evs)
  then show ?case by (cases ev) (simp_all add: assms(2))
qed

lemma traced_store_new_block: "traced Q d (store_new_block Q R S m cbs b d)"
proof -
  let ?q = "addBlock (blockchain_id m) (number b) (hash b) (header_fields b)"
  obtain res d1 where q: "Q ?q d = (res, d1)" by (cases "Q ?q d")
  from traced_storeBlockAssocData [of Q d1 R S m cbs b] q show ?thesis
    by (simp add: store_new_block_def Let_def traced_def replay_append)
qed

lemma traced_blockAlreadyExists: "traced Q d (blockAlreadyExists m n d)"
  by (simp add: blockAlreadyExists_def traced_def db_of_mainLoop replay_append replay_mainLoop)

lemma traced_check_height_total: "traced Q d (check_height_total Q R S m cbs n b d)"
proof -
  let ?q = "getBlockTransactionCount (blockchain_id m) n"
  obtain res d1 where q: "Q ?q d = (res, d1)" by (cases "Q ?q d")
  from traced_storeBlockAssocData [of Q d1 R S m cbs b] traced_blockAlreadyExists [of Q d1 m n] q
  show ?thesis
    by (simp add: check_height_total_def Let_def traced_def replay_append
        split: option.split list.split)
qed

lemma traced_reconcile: "traced Q d (reconcile Q R S m cbs n b d)"
proof -
  let ?q = "getBlockByHash (blockchain_id m) (hash b)"
  obtain res d1 where q: "Q ?q d = (res, d1)" by (cases "Q ?q d")
  from traced_storeBlockAssocData [of Q d1 R S m cbs b] traced_store_new_block [of Q d1 R S m cbs b]
    traced_check_height_total [of Q d1 R S m cbs n b] q
  show ?thesis
    by (simp add: reconcile_def Let_def traced_def replay_append
        split: option.split list.split)
qed

lemma replay_no_queries: "list_all (\<lambda>ev. \<not> is_query ev) evs \<Longrightarrow> replay Q d evs = d"
proof (induction evs)
  case Nil
  then show ?case by simp
next
  case (Cons ev evs)
  then show ?case by (cases ev) simp_all
qed

lemma replay_review_loop: "replay Q d (review_loop cbs p n) = d"
  by (rule replay_no_queries) (simp add: review_loop_upto list_all_iff)

lemma traced_atBlockchainHead: "traced Q d (snd (atBlockchainHead m n d))"
  by (simp add: atBlockchainHead_def Let_def traced_def db_of_mainLoop replay_append
      replay_review_loop replay_mainLoop)

lemma traced_getBlock_callback:
  "traced Q d (snd (snd (getBlock_callback Q R S cbs n dl flag m d)))"
proof (cases "err dl")
  case (Some e)
  then show ?thesis
    by (simp add: getBlock_callback_def traced_def db_of_mainLoop replay_append replay_mainLoop)
next
  case None
  note noerr = this
  show ?thesis
  proof (cases "fetched dl")
    case None
    with noerr traced_atBlockchainHead [of Q d m n] show ?thesis
      by (simp add: getBlock_callback_def split: prod.split)
  next
    case (Some b)
    with noerr traced_reconcile [of Q d R S m cbs n b] show ?thesis
      by (simp add: getBlock_callback_def)
  qed
qed

text \<open>
  C6: when the look-up by hash returns a row, both re-persist cases (the row's transaction
  count differs from the fetched one; or it is equal and the height-wide count is there
  but not a truthy-\<open>rowCount\<close> equal count) go straight to \<^verbatim>\<open>storeBlockAssocData\<close>,
  whose first statements are \<^verbatim>\<open>BEGIN\<close> and the two deletes at the block's height. No
  statement that inserts or deletes a block row is sent, so every property of the
  database that only such a statement can change is kept.
\<close>

theorem repersist_keeps_block_row:
  assumes "Q (getBlockByHash (blockchain_id m) (hash b)) d = (Some r1, d1)"
    and "rowCount r1 \<noteq> 0"
    and "rows r1 = tc # others"
  shows "(tc \<noteq> int (length (transactions b)) \<longrightarrow>
            getBlock_callback Q R S cbs n \<lparr> err = None, fetched = Some b \<rparr> flag m d =
              (flag, m,
               after [Sql (getBlockByHash (blockchain_id m) (hash b)),
                      Log INFO ''At a re-instated block, restoring data.'']
                 (storeBlockAssocData Q R S m cbs b d1)))
       \<and> (\<forall>r2 d2 c rest.
            tc = int (length (transactions b)) \<and>
            Q (getBlockTransactionCount (blockchain_id m) n) d1 = (Some r2, d2) \<and>
            rows r2 = c # rest \<and> (rowCount r2 = 0 \<or> c \<noteq> int (length (transactions b))) \<longrightarrow>
            getBlock_callback Q R S cbs n \<lparr> err = None, fetched = Some b \<rparr> flag m d =
              (flag, m,
               after [Sql (getBlockByHash (blockchain_id m) (hash b)),
                      Sql (getBlockTransactionCount (blockchain_id m) n),
                      Log INFO ''At block, found stale transactions.'']
                 (storeBlockAssocData Q R S m cbs b d2)))
       \<and> (\<forall>d'. \<exists>rest.
            events_of (storeBlockAssocData Q R S m cbs b d') =
              Sql BEGIN # Sql (deleteLogs (blockchain_id m) (number b))
              # Sql (deleteTransactions (blockchain_id m) (number b)) # rest)
       \<and> list_all (\<lambda>ev. \<not> writes_block_row ev)
            (events_of (snd (snd (getBlock_callback Q R S cbs n \<lparr> err = None, fetched = Some b \<rparr> flag m d))))
       \<and> (\<forall>I. (\<forall>q x. \<not> writes_block_row (Sql q) \<and> I x \<longrightarrow> I (snd (Q q x))) \<and> I d \<longrightarrow>
              I (db_of (snd (snd (getBlock_callback Q R S cbs n \<lparr> err = None, fetched = Some b \<rparr> flag m d)))))"
proof -
  let ?run = "snd (snd (getBlock_callback Q R S cbs n \<lparr> err = None, fetched = Some b \<rparr> flag m d))"
  have a: "tc \<noteq> int (length (transactions b)) \<longrightarrow>
            getBlock_callback Q R S cbs n \<lparr> err = None, fetched = Some b \<rparr> flag m d =
              (flag, m,
               after [Sql (getBlockByHash (blockchain_id m) (hash b)),
                      Log INFO ''At a re-instated block, restoring data.'']
                 (storeBlockAssocData Q R S m cbs b d1))"
    using assms by (auto simp: getBlock_callback_def reconcile_def Let_def no_rows_def)
  have b: "\<forall>r2 d2 c rest.
            tc = int (length (transactions b)) \<and>
            Q (getBlockTransactionCount (blockchain_id m) n) d1 = (Some r2, d2) \<and>
            rows r2 = c # rest \<and> (rowCount r2 = 0 \<or> c \<noteq> int (length (transactions b))) \<longrightarrow>
            getBlock_callback Q R S cbs n \<lparr> err = None, fetched = Some b \<rparr> flag m d =
              (flag, m,
               after [Sql (getBlockByHash (blockchain_id m) (hash b)),
                      Sql (getBlockTransactionCount (blockchain_id m) n),
                      Log INFO ''At block, found stale transactions.'']
                 (storeBlockAssocData Q R S m cbs b d2))"
    using assms
    by (auto simp: getBlock_callback_def reconcile_def check_height_total_def Let_def no_rows_def)
  have c: "\<forall>d'. \<exists>rest.
            events_of (storeBlockAssocData Q R S m cbs b d') =
              Sql BEGIN # Sql (deleteLogs (blockchain_id m) (number b))
              # Sql (deleteTransactions (blockchain_id m) (number b)) # rest"
    unfolding storeBlockAssocData_shape
    by (auto split: prod.split completion.split)
  have d: "list_all (\<lambda>ev. \<not> writes_block_row ev) (events_of ?run)"
    using assms
    by (simp add: getBlock_callback_def reconcile_def check_height_total_def Let_def no_rows_def
        persist_events_no_block_write [OF storeBlockAssocData_persist]
        persist_events_no_block_write [OF blockAlreadyExists_persist]
        split: prod.split option.split list.split)
  have e: "\<forall>I. (\<forall>q x. \<not> writes_block_row (Sql q) \<and> I x \<longrightarrow> I (snd (Q q x))) \<and> I d \<longrightarrow> I (db_of ?run)"
  proof (intro allI impI, elim conjE)
    fix I :: "'a \<Rightarrow> bool"
    assume inv: "\<forall>q x. \<not> writes_block_row (Sql q) \<and> I x \<longrightarrow> I (snd (Q q x))" and "I d"
    from traced_getBlock_callback [of Q d R S cbs n "\<lparr> err = None, fetched = Some b \<rparr>" flag m]
    have "db_of ?run = replay Q d (events_of ?run)" by (simp add: traced_def)
    moreover have "I (replay Q d (events_of ?run))"
    proof (rule replay_invariant [where I = I, OF d])
      show "I (snd (Q q x))" if "\<not> writes_block_row (Sql q)" and "I x" for q x
        using inv that by blast
      show "I d" by fact
    qed
    ultimately show "I (db_of ?run)" by simp
  qed
  show ?thesis
    by (intro conjI) (fact a, fact b, fact c, fact d, fact e)
qed

subsection \<open>The transaction of the session\<close>

lemma session_query_block_rows:
  assumes "\<not> writes_block_row (Sql q)" and "block_rows_are B x"
  shows "block_rows_are B (snd (session_query q x))"
  using assms
  by (cases q) (auto simp: session_query_def block_rows_are_def Let_def done_with_def
      split: option.splits list.splits)










lemma filter_catch_ommers [simp]:
  "filter catch_event (map (\<lambda>om. Sql (addOmmer bid om h)) os) = []"
  by (induction os) simp_all

lemma filter_catch_requests [simp]:
  "filter catch_event (map (\<lambda>t. NodeGetTransactionReceipt (tx_hash t)) ts) = []"
  for ts :: "transaction list"
  by (induction ts) simp_all











lemma stored_7_partial_rows: "block_rows_are [(1, 7, ''0xb7'', [])] stored_7_partial"
  by (simp add: block_rows_are_def stored_7_partial_def)

theorem repersist_keeps_block_row_witness:
  "getBlock_callback session_query receipts_all [] mainLoop_callbacks 7
     \<lparr> err = None, fetched = Some block_7 \<rparr> False (CacheMonitor 1 None None) stored_7_partial =
     (False, CacheMonitor 1 None None,
      after [Sql (getBlockByHash 1 ''0xb7''), Log INFO ''At a re-instated block, restoring data.'']
        (storeBlockAssocData session_query receipts_all [] (CacheMonitor 1 None None)
           mainLoop_callbacks block_7 stored_7_partial))
   \<and> list_all (\<lambda>ev. \<not> writes_block_row ev)
        (events_of (snd (snd (getBlock_callback session_query receipts_all [] mainLoop_callbacks 7
           \<lparr> err = None, fetched = Some block_7 \<rparr> False (CacheMonitor 1 None None) stored_7_partial))))
   \<and> block_rows (stored (db_of (snd (snd (getBlock_callback session_query receipts_all []
        mainLoop_callbacks 7 \<lparr> err = None, fetched = Some block_7 \<rparr> False (CacheMonitor 1 None None)
        stored_7_partial))))) = [(1, 7, ''0xb7'', [])]
   \<and> getBlock_callback session_query receipts_all [] review_callbacks 7
       \<lparr> err = None, fetched = Some block_7 \<rparr> False (CacheMonitor 1 None None) stored_7_uncled =
     (False, CacheMonitor 1 None None,
      after [Sql (getBlockByHash 1 ''0xb7''), Sql (getBlockTransactionCount 1 7),
             Log INFO ''At block, found stale transactions.'']
        (storeBlockAssocData session_query receipts_all [] (CacheMonitor 1 None None)
           review_callbacks block_7 stored_7_uncled))"
proof -
  let ?run = "snd (snd (getBlock_callback session_query receipts_all [] mainLoop_callbacks 7
           \<lparr> err = None, fetched = Some block_7 \<rparr> False (CacheMonitor 1 None None) stored_7_partial))"
  have lookup: "session_query (getBlockByHash (blockchain_id (CacheMonitor 1 None None)) (hash block_7))
      stored_7_partial = (Some \<lparr> rowCount = 1, rows = [2] \<rparr>, stored_7_partial)"
    using stored_7_partial_by_hash by (simp add: CacheMonitor_id block_7_fields)
  have "rowCount \<lparr> rowCount = 1, rows = [2::int] \<rparr> \<noteq> 0"
    and "rows \<lparr> rowCount = 1, rows = [2::int] \<rparr> = 2 # []"
    by simp_all
  note inst = repersist_keeps_block_row [where Q = session_query
      and m = "CacheMonitor 1 None None" and b = block_7 and d = stored_7_partial
      and ?d1.0 = stored_7_partial and ?r1.0 = "\<lparr> rowCount = 1, rows = [2] \<rparr>"
      and tc = 2 and others = "[]" and R = receipts_all and S = "[]" and cbs = mainLoop_callbacks
      and n = 7 and flag = False, OF lookup this]
  from inst [THEN conjunct1] have first: "getBlock_callback session_query receipts_all [] mainLoop_callbacks 7
     \<lparr> err = None, fetched = Some block_7 \<rparr> False (CacheMonitor 1 None None) stored_7_partial =
     (False, CacheMonitor 1 None None,
      after [Sql (getBlockByHash 1 ''0xb7''), Log INFO ''At a re-instated block, restoring data.'']
        (storeBlockAssocData session_query receipts_all [] (CacheMonitor 1 None None)
           mainLoop_callbacks block_7 stored_7_partial))"
    by (simp add: CacheMonitor_id block_7_fields)
  from inst [THEN conjunct2, THEN conjunct2, THEN conjunct2, THEN conjunct1]
  have second: "list_all (\<lambda>ev. \<not> writes_block_row ev) (events_of ?run)" .
  from inst [THEN conjunct2, THEN conjunct2, THEN conjunct2, THEN conjunct2]
  have "\<forall>I. (\<forall>q x. \<not> writes_block_row (Sql q) \<and> I x \<longrightarrow> I (snd (session_query q x)))
      \<and> I stored_7_partial \<longrightarrow> I (db_of ?run)" .
  then have "(\<forall>q x. \<not> writes_block_row (Sql q) \<and> block_rows_are [(1, 7, ''0xb7'', [])] x
        \<longrightarrow> block_rows_are [(1, 7, ''0xb7'', [])] (snd (session_query q x)))
      \<and> block_rows_are [(1, 7, ''0xb7'', [])] stored_7_partial
      \<longrightarrow> block_rows_are [(1, 7, ''0xb7'', [])] (db_of ?run)"
    by (rule spec)
  with stored_7_partial_rows session_query_block_rows
  have "block_rows_are [(1, 7, ''0xb7'', [])] (db_of ?run)" by blast
  then have third: "block_rows (stored (db_of ?run)) = [(1, 7, ''0xb7'', [])]"
    by (simp add: block_rows_are_def)
  have lookup': "session_query (getBlockByHash (blockchain_id (CacheMonitor 1 None None)) (hash block_7))
      stored_7_uncled = (Some \<lparr> rowCount = 1, rows = [3] \<rparr>, stored_7_uncled)"
    using stored_7_uncled_by_hash by (simp add: CacheMonitor_id block_7_fields)
  have "rowCount \<lparr> rowCount = 1, rows = [3::int] \<rparr> \<noteq> 0"
    and "rows \<lparr> rowCount = 1, rows = [3::int] \<rparr> = 3 # []"
    by simp_all
  note inst' = repersist_keeps_block_row [where Q = session_query
      and m = "CacheMonitor 1 None None" and b = block_7 and d = stored_7_uncled
      and ?d1.0 = stored_7_uncled and ?r1.0 = "\<lparr> rowCount = 1, rows = [3] \<rparr>"
      and tc = 3 and others = "[]" and R = receipts_all and S = "[]" and cbs = review_callbacks
      and n = 7 and flag = False, OF lookup' this]
  from inst' [THEN conjunct2, THEN conjunct1, rule_format,
      of "\<lparr> rowCount = 1, rows = [4] \<rparr>" stored_7_uncled 4 "[]"]
    stored_7_uncled_height_count
  have fourth: "getBlock_callback session_query receipts_all [] review_callbacks 7
       \<lparr> err = None, fetched = Some block_7 \<rparr> False (CacheMonitor 1 None None) stored_7_uncled =
     (False, CacheMonitor 1 None None,
      after [Sql (getBlockByHash 1 ''0xb7''), Sql (getBlockTransactionCount 1 7),
             Log INFO ''At block, found stale transactions.'']
        (storeBlockAssocData session_query receipts_all [] (CacheMonitor 1 None None)
           review_callbacks block_7 stored_7_uncled))"
    by (simp add: CacheMonitor_id block_7_fields)
  from first second third fourth show ?thesis by simp
qed

subsection \<open>Review fetches and the cursor\<close>

lemma promise_event_no_entry: "promise_event ev \<Longrightarrow> \<not> enters_loop ev"
  by (cases ev) (simp_all add: promise_event_def)

lemma promise_events_no_entry:
  "list_all promise_event evs \<Longrightarrow> list_all (\<lambda>ev. \<not> enters_loop ev) evs"
  by (induction evs) (simp_all add: promise_event_no_entry)

lemma storeBlockAssocData_no_entry:
  assumes "\<not> has_moveToNextBlock cbs"
  shows "list_all (\<lambda>ev. \<not> enters_loop ev) (events_of (storeBlockAssocData Q R S m cbs b d))"
  unfolding storeBlockAssocData_def
  by (intro and_then_events)
     (simp_all add: assms promise_events_no_entry [OF promises_promise])

lemma reconcile_no_entry:
  assumes "\<not> has_moveToNextBlock cbs" and "\<not> has_blockAlreadyExists cbs"
  shows "list_all (\<lambda>ev. \<not> enters_loop ev) (events_of (reconcile Q R S m cbs n b d))"
  using assms
  by (simp add: reconcile_def store_new_block_def check_height_total_def Let_def
      storeBlockAssocData_no_entry split: prod.split option.split list.split)

text \<open>
  A fetch whose caller passed none of the handlers of the cursor loop (both kinds of
  review fetch) enters the cursor loop in exactly one case: the node delivers a transient
  error and the fetch has not recovered yet. An empty answer, a block that is stored
  already, one that is stored again or inserted, and any other error leave the cursor
  loop alone.
\<close>

theorem review_fetch_enters_loop_only_on_transient_error:
  assumes "\<not> has_atBlockchainHead cbs" and "\<not> has_blockAlreadyExists cbs"
    and "\<not> has_moveToNextBlock cbs"
  shows "(\<exists>k. MainLoop k \<in> set (events_of (snd (snd (getBlock_callback Q R S cbs p dl flag m d)))))
           \<longleftrightarrow> (\<exists>e. err dl = Some e \<and> node_is_down e \<and> \<not> flag)"
proof (cases "err dl")
  case (Some e)
  then show ?thesis
    by (auto simp: getBlock_callback_def mainLoop_def split: option.split)
next
  case None
  note noerr = this
  have "list_all (\<lambda>ev. \<not> enters_loop ev) (events_of (snd (snd (getBlock_callback Q R S cbs p dl flag m d))))"
  proof (cases "fetched dl")
    case None
    with noerr assms show ?thesis by (simp add: getBlock_callback_def)
  next
    case (Some b)
    with noerr assms show ?thesis by (simp add: getBlock_callback_def reconcile_no_entry)
  qed
  then have "\<not> (\<exists>k. MainLoop k \<in> set (events_of (snd (snd (getBlock_callback Q R S cbs p dl flag m d)))))"
    by (auto simp: list_all_iff)
  with noerr show ?thesis by simp
qed

theorem review_fetch_enters_loop_witness:
  "(\<exists>k. MainLoop k \<in> set (events_of (snd (snd (getBlock_callback session_query receipts_all []
       review_callbacks 998
       \<lparr> err = Some ''Error: Invalid JSON RPC response: undefined'', fetched = None \<rparr> False
       (CacheMonitor 1 None None) empty_database)))))
   \<and> \<not> (\<exists>k. MainLoop k \<in> set (events_of (snd (snd (getBlock_callback session_query receipts_all []
       review_callbacks 998 \<lparr> err = None, fetched = Some block_7 \<rparr> False
       (CacheMonitor 1 None None) empty_database)))))"
  using review_fetch_enters_loop_only_on_transient_error [where cbs = review_callbacks
      and Q = session_query and R = receipts_all and S = "[]" and p = 998 and flag = False
      and m = "CacheMonitor 1 None None" and d = empty_database
      and dl = "\<lparr> err = Some ''Error: Invalid JSON RPC response: undefined'', fetched = None \<rparr>"]
    review_fetch_enters_loop_only_on_transient_error [where cbs = review_callbacks
      and Q = session_query and R = receipts_all and S = "[]" and p = 998 and flag = False
      and m = "CacheMonitor 1 None None" and d = empty_database
      and dl = "\<lparr> err = None, fetched = Some block_7 \<rparr>"]
    invalid_response_text_is_down
  by (simp add: review_callbacks_def)

text \<open>
  C1 at a transient error: at cursor 1000 the short review launches a fetch at height 998
  with the review handler; when the node answers that fetch with
  \<^verbatim>\<open>Invalid JSON RPC response\<close>, its callback cycles the node and calls
  \<^verbatim>\<open>this.mainLoop(998)\<close>, which fetches height 998 with the handlers of the cursor loop:
  a cursor loop is entered at the prior height.
\<close>

theorem review_fetch_transient_error_enters_loop:
  "NodeGetBlock 998 review_callbacks \<in>
     set (events_of (snd (snd (getBlock_callback Q R S mainLoop_callbacks 1000
            \<lparr> err = None, fetched = None \<rparr> False (CacheMonitor 1 None None) d))))
   \<and> getBlock Q R S review_callbacks 998
       [\<lparr> err = Some ''Error: Invalid JSON RPC response: undefined'', fetched = None \<rparr>]
       ((CacheMonitor 1 None None)\<lparr>comprehensiveReviewCounter := 1\<rparr>) d =
     ((CacheMonitor 1 None None)\<lparr>comprehensiveReviewCounter := 1\<rparr>, Returned, d,
      [Log ERROR ''** JSON RPC or connection timeout failure, cycling to next node **'',
       CycleNodes, MainLoop 998, NodeGetBlock 998 mainLoop_callbacks])"
proof -
  have "NodeGetBlock 998 review_callbacks \<in>
     set (events_of (snd (snd (getBlock_callback Q R S mainLoop_callbacks 1000
            \<lparr> err = None, fetched = None \<rparr> False (CacheMonitor 1 None None) d))))"
    by (simp add: getBlock_callback_def atBlockchainHead_def mainLoop_callbacks_def
        CacheMonitor_def review_loop_upto Let_def)
  moreover have "getBlock Q R S review_callbacks 998
       [\<lparr> err = Some ''Error: Invalid JSON RPC response: undefined'', fetched = None \<rparr>]
       ((CacheMonitor 1 None None)\<lparr>comprehensiveReviewCounter := 1\<rparr>) d =
     ((CacheMonitor 1 None None)\<lparr>comprehensiveReviewCounter := 1\<rparr>, Returned, d,
      [Log ERROR ''** JSON RPC or connection timeout failure, cycling to next node **'',
       CycleNodes, MainLoop 998, NodeGetBlock 998 mainLoop_callbacks])"
    using invalid_response_text_is_down
    by (simp add: getBlock_def getBlock_callback_def mainLoop_def CacheMonitor_def)
  ultimately show ?thesis by (rule conjI)
qed

subsection \<open>Advancing and flushing\<close>

lemma no_entry_not_member:
  "list_all (\<lambda>ev. \<not> enters_loop ev) evs \<Longrightarrow> MainLoop k \<notin> set evs"
  by (auto simp: list_all_iff)

lemma mainLoop_events_shape:
  "\<exists>rest. events_of (mainLoop m n d) = MainLoop n # rest \<and> (\<forall>k. MainLoop k \<notin> set rest)"
  by (cases "endBlockOverride m") (simp_all add: mainLoop_def)

text \<open>
  The cursor moves on only after the commit: if \<^verbatim>\<open>storeBlockAssocData\<close> enters the
  cursor loop at all, it does so once, through the caller's \<^verbatim>\<open>moveToNextBlock\<close>, at
  \<^verbatim>\<open>block.number + 1\<close>, and the entry directly follows \<^verbatim>\<open>COMMIT\<close>.
\<close>

theorem cursor_advances_after_commit:
  assumes "MainLoop k \<in> set (events_of (storeBlockAssocData Q R S m cbs b d))"
  shows "k = number b + 1 \<and> has_moveToNextBlock cbs
       \<and> (\<exists>xs ys. events_of (storeBlockAssocData Q R S m cbs b d) = xs @ Sql COMMIT # MainLoop k # ys
             \<and> MainLoop k \<notin> set xs)"
proof -
  let ?d3 = "snd (Q (deleteTransactions (blockchain_id m) (number b))
               (snd (Q (deleteLogs (blockchain_id m) (number b)) (snd (Q BEGIN d)))))"
  let ?pre = "[Sql BEGIN, Sql (deleteLogs (blockchain_id m) (number b)),
               Sql (deleteTransactions (blockchain_id m) (number b))]"
  obtain c d4 mid where p: "promises Q R S m b ?d3 = (c, d4, mid)"
    by (cases "promises Q R S m b ?d3")
  from promise_events_no_entry [OF promises_promise [of Q R S m b ?d3]] p
  have mid: "MainLoop k \<notin> set mid" by (simp add: no_entry_not_member)
  show ?thesis
  proof (cases c)
    case Returned
    show ?thesis
    proof (cases "has_moveToNextBlock cbs")
      case True
      obtain rest where ml: "events_of (mainLoop m (number b + 1) (snd (Q COMMIT d4))) =
          MainLoop (number b + 1) # rest" and rest: "MainLoop k \<notin> set rest"
        using mainLoop_events_shape [of m "number b + 1" "snd (Q COMMIT d4)"] by blast
      have ev: "events_of (storeBlockAssocData Q R S m cbs b d) =
          (?pre @ mid) @ Sql COMMIT # MainLoop (number b + 1) # rest"
        unfolding storeBlockAssocData_shape p using Returned True ml
        by (simp add: moveToNextBlock_def)
      with assms mid rest have k: "k = number b + 1" by auto
      from mid have "MainLoop k \<notin> set (?pre @ mid)" by simp
      with ev k True show ?thesis by blast
    next
      case False
      with assms mid Returned show ?thesis
        unfolding storeBlockAssocData_shape p by simp
    qed
  next
    case (Exited x)
    with assms mid show ?thesis
      unfolding storeBlockAssocData_shape p by simp
  next
    case (Rejected e)
    with assms mid show ?thesis
      unfolding storeBlockAssocData_shape p by simp
  qed
qed

lemma stored_run:
  "storeBlockAssocData session_query receipts_all [] (CacheMonitor 1 None None) mainLoop_callbacks
     block_7 stored_7_partial =
   (Returned,
    \<lparr> stored =
        \<lparr> block_rows = [(1, 7, ''0xb7'', [])],
          ommer_rows = [(1, ''0xe1'', ''0xb7''), (1, ''0xe1'', ''0xb7'')],
          transaction_rows =
            [(''0xb7'', tx_a, Some True, None), (''0xb7'', tx_b, Some True, None),
             (''0xb7'', tx_c, Some True, None)],
          log_rows = [(2, ''0xa1'', transfer_log)] \<rparr>,
      open_transaction = None, next_log_id = 3 \<rparr>,
    [Sql BEGIN, Sql (deleteLogs 1 7), Sql (deleteTransactions 1 7),
     Sql (addOmmer 1 ''0xe1'' ''0xb7''),
     NodeGetTransactionReceipt ''0xa1'', NodeGetTransactionReceipt ''0xa2'',
     NodeGetTransactionReceipt ''0xa3'',
     Sql (addTransaction ''0xb7'' tx_a (Some True) None),
     Sql (deleteLogsByTransactionHash ''0xa1''), Sql (addLog ''0xa1'' transfer_log),
     SetDecodedLog 2 transfer_log,
     Sql (addTransaction ''0xb7'' tx_b (Some True) None),
     Sql (addTransaction ''0xb7'' tx_c (Some True) None),
     Sql COMMIT, MainLoop 8, NodeGetBlock 8 mainLoop_callbacks])"
  by (simp add: storeBlockAssocData_def moveToNextBlock_def mainLoop_def
      promises_def drain_def finish.simps next_log_def
      run_query_def session_query_def done_with_def no_rows_def
      Let_def CacheMonitor_def block_7_def stored_7_partial_def
      receipts_all_def tx_a_def tx_b_def tx_c_def transfer_log_def mainLoop_callbacks_def
      status_or_null_def address_or_null_def hashes_at_def transactions_at_def transactions_of_def
      del: set_map set_filter)

theorem cursor_advances_after_commit_witness:
  "MainLoop 8 \<in> set (events_of (storeBlockAssocData session_query receipts_all []
       (CacheMonitor 1 None None) mainLoop_callbacks block_7 stored_7_partial))
   \<and> (8::int) = number block_7 + 1 \<and> has_moveToNextBlock mainLoop_callbacks
   \<and> (\<exists>xs ys. events_of (storeBlockAssocData session_query receipts_all []
          (CacheMonitor 1 None None) mainLoop_callbacks block_7 stored_7_partial) =
          xs @ Sql COMMIT # MainLoop 8 # ys \<and> MainLoop 8 \<notin> set xs)"
proof -
  have "MainLoop 8 \<in> set (events_of (storeBlockAssocData session_query receipts_all []
       (CacheMonitor 1 None None) mainLoop_callbacks block_7 stored_7_partial))"
    unfolding stored_run by simp
  from this cursor_advances_after_commit [OF this] show ?thesis by simp
qed

text \<open>
  \<^verbatim>\<open>flushBlock\<close> deletes, in this order, the logs, the transactions, the ommers and the
  block row at the height, and returns.
\<close>

theorem flushBlock_order:
  "flushBlock Q m n d =
     (Returned,
      snd (Q (deleteBlock (blockchain_id m) n)
        (snd (Q (deleteOmmers (blockchain_id m) n)
          (snd (Q (deleteTransactions (blockchain_id m) n)
            (snd (Q (deleteLogs (blockchain_id m) n) d))))))),
      [Log INFO ''Flushing'', Sql (deleteLogs (blockchain_id m) n),
       Log INFO ''Logs deleted, cascading to events and related tables'',
       Sql (deleteTransactions (blockchain_id m) n), Log INFO ''Transactions deleted'',
       Sql (deleteOmmers (blockchain_id m) n), Log INFO ''Ommers deleted'',
       Sql (deleteBlock (blockchain_id m) n), Log INFO ''Completed flushing''])"
  by (simp add: flushBlock_def run_query_def)

end
